theory Spec2Isabelle
  imports Main "HOL-Library.Word"
begin

section \<open>Patch-wise model inference of SUPRA (TorchInference.h)\<close>

text \<open>
  The header \<^verbatim>\<open>src/SupraLib/Processing/TorchInference.h\<close> holds two member templates of
  the class \<^verbatim>\<open>TorchInference\<close>: \<^verbatim>\<open>process\<close>, which cuts the x axis of the input volume
  into overlapping patches, runs the model on each patch and stitches the trusted part of
  every result into one output buffer, and \<^verbatim>\<open>copyPatchToOutput\<close>, which does the
  stitching of one patch. This theory embeds both, function by function, and proves the
  properties of the planning loop, of the region copy and of the error paths.

  Machine integers are words: \<^verbatim>\<open>size_t\<close> is 64 bits wide (the code needs CUDA, which
  exists on LP64 platforms only), \<^verbatim>\<open>uint32_t\<close> is 32 bits wide. Arithmetic on them wraps
  around exactly as in the source, and a \<^verbatim>\<open>uint32_t\<close> operand of a \<^verbatim>\<open>size_t\<close>
  operation is widened by \<open>ucast\<close> first, as the usual arithmetic conversions do.
\<close>

type_synonym size_t = "64 word"
type_synonym uint32_t = "32 word"

subsection \<open>Data\<close>

text \<open>
  Modelled from the spec: \<^verbatim>\<open>vec3s\<close> is declared in \<^verbatim>\<open>vec.h\<close>, which is not among the
  sources. The spec calls a volume size a 3-tuple of non-negative integers (x, y, z); the
  code reads the members \<^verbatim>\<open>x\<close>, \<^verbatim>\<open>y\<close>, \<^verbatim>\<open>z\<close> into \<^verbatim>\<open>size_t\<close> variables and
  multiplies them into an element count, so the members are taken to be \<^verbatim>\<open>size_t\<close>.
\<close>

record vec3s =
  vec_x :: size_t
  vec_y :: size_t
  vec_z :: size_t

text \<open>
  One iteration of the loop of \<^verbatim>\<open>process\<close> computes four local variables: the patch
  window \<open>[startPixel, startPixel + patchSize)\<close> that is sent to the model, and the valid
  sub-window \<open>[startPixelValid, startPixelValid + patchSizeValid)\<close> that is written to the
  output.
\<close>

record patch =
  startPixel :: size_t
  patchSize :: size_t
  startPixelValid :: size_t
  patchSizeValid :: size_t

text \<open>The nine range variables of \<^verbatim>\<open>copyPatchToOutput\<close> (lines 236 to 244).\<close>

record axisRanges =
  outSliceStart :: size_t
  outSliceEnd :: size_t
  outSliceOffset :: size_t
  outLineStart :: size_t
  outLineEnd :: size_t
  outLineOffset :: size_t
  outPixelStart :: size_t
  outPixelEnd :: size_t
  outPixelOffset :: size_t

text \<open>
  The storage behind \<^verbatim>\<open>pDataOut->get()\<close>: a flat array. A freshly allocated element
  holds no determinate value, which is \<open>None\<close>; an element that was assigned holds
  \<open>Some\<close> of the value.
\<close>

type_synonym 'o Container = "'o option list"

text \<open>
  The element types of a tensor are the scalar types of the tensor library (its
  \<^verbatim>\<open>ScalarType\<close> enumeration); \<^verbatim>\<open>process\<close> compares \<^verbatim>\<open>output.dtype()\<close> with seven of
  them.
\<close>

datatype ScalarType =
  kUInt8 | kInt8 | kInt16 | kInt32 | kInt64 | kHalf | kFloat | kDouble
  | kComplexHalf | kComplexFloat | kComplexDouble | kBool
  | kQInt8 | kQUInt8 | kQInt32 | kBFloat16

text \<open>
  Modelled from the spec: the enumeration \<^verbatim>\<open>DataType\<close> of the type hints is declared in
  \<^verbatim>\<open>Container.h\<close>, which is not among the sources. The spec names 8, 16, 32 and 64 bit
  signed and unsigned integers, 32 and 64 bit floating point and a reduced-precision
  float; the code only asks whether the hint is \<^verbatim>\<open>TypeHalf\<close>.
\<close>

datatype DataType =
  TypeInt8 | TypeUint8 | TypeInt16 | TypeUint16 | TypeInt32 | TypeUint32
  | TypeInt64 | TypeUint64 | TypeHalf | TypeFloat | TypeDouble

text \<open>
  A tensor as \<^verbatim>\<open>process\<close> sees the model output: its runtime element type, whether it
  lives on a HIP device, and its elements as a four-dimensional array, which is what
  \<^verbatim>\<open>output.accessor<ModelOutputType, 4>()\<close> indexes.
\<close>

type_synonym 'm accessor4 = "'m list list list list"

record 'm Tensor =
  dtype :: ScalarType
  is_hip :: bool
  elems :: "'m accessor4"

text \<open>
  What a call into the tensor library can throw: \<^verbatim>\<open>c10::Error\<close> with its \<^verbatim>\<open>what()\<close>
  and \<^verbatim>\<open>msg_stack()\<close> texts, \<^verbatim>\<open>std::runtime_error\<close> with its \<^verbatim>\<open>what()\<close> text, or an
  exception of any other class.
\<close>

datatype exn = C10Error string string | RuntimeError string | OtherException

text \<open>
  The ways a statement leaves the normal flow of control: an exception, a failed
  \<^verbatim>\<open>assert\<close> (the process is aborted), or an access outside an array, which the language
  leaves undefined.
\<close>

datatype stop = Throw exn | Abort | UndefinedBehaviour

text \<open>
  How a call of \<^verbatim>\<open>process\<close> ends: it returns \<^verbatim>\<open>pDataOut\<close> (\<open>None\<close> is the null
  pointer) having written the given lines to the error log, it is aborted by a failed
  assertion, an exception leaves it, or its behaviour is undefined.
\<close>

datatype 'o outcome =
  Returned "'o Container option" "string list"
  | Aborted
  | Propagated exn
  | Undefined

text \<open>
  The members of a \<^verbatim>\<open>TorchInference\<close> object. A module pointer is \<open>None\<close> when it is
  null; otherwise it holds what calling the module does: \<^verbatim>\<open>forward\<close> for the model,
  \<^verbatim>\<open>run_method("normalize", _)\<close> and \<^verbatim>\<open>run_method("denormalize", _)\<close> for the two
  auxiliary modules. Each call returns a value or throws. \<open>'t\<close> is the type of input
  tensors, \<open>'v\<close> the type \<^verbatim>\<open>IValue\<close>.
\<close>

record ('t, 'v) TorchInference =
  m_torchModule :: "('v \<Rightarrow> exn + 'v) option"
  m_inputNormalizationModule :: "('t \<Rightarrow> exn + 'v) option"
  m_outputDenormalizationModule :: "('v \<Rightarrow> exn + 'v) option"
  m_modelFilename :: string

text \<open>
  The tensor library and the private helpers \<^verbatim>\<open>convertDataType\<close> and \<^verbatim>\<open>changeLayout\<close>,
  whose definitions are not among the sources, are parameters of the model:
  \<^item> \<open>from_blob\<close>: wrapping the input buffer into a tensor (lines 51 to 59);
  \<^item> \<open>slice_convert_layout inputData a b\<close>: \<^verbatim>\<open>inputData.slice(3, a, b)\<close> followed by
    \<^verbatim>\<open>convertDataType\<close> and \<^verbatim>\<open>changeLayout\<close> (lines 109 to 115);
  \<^item> \<open>requires_grad\<close>: the flag tested by the assertion of line 116;
  \<^item> \<open>ivalueOf\<close>: the conversion of a tensor to an \<^verbatim>\<open>IValue\<close> (line 128);
  \<^item> \<open>toTensor\<close>: \<^verbatim>\<open>result.toTensor()\<close> (line 145);
  \<^item> \<open>changeLayoutOut\<close>: \<^verbatim>\<open>changeLayout(output, modelOutputLayout, finalLayout)\<close>
    (line 150);
  \<^item> \<open>toFloat\<close>: what \<^verbatim>\<open>output.to(torch::kFloat)\<close> does to one element (line 154).
  \<^verbatim>\<open>cudaSafeCall\<close> only reports; it does not change the flow of control.
\<close>

record ('t, 'v, 'm) TorchOps =
  from_blob :: "exn + 't"
  slice_convert_layout :: "'t \<Rightarrow> size_t \<Rightarrow> size_t \<Rightarrow> exn + 't"
  requires_grad :: "'t \<Rightarrow> bool"
  ivalueOf :: "'t \<Rightarrow> 'v"
  toTensor :: "'v \<Rightarrow> exn + 'm Tensor"
  changeLayoutOut :: "'m Tensor \<Rightarrow> exn + 'm Tensor"
  toFloat :: "'m \<Rightarrow> 'm"

subsection \<open>The patch planner (lines 61 to 106 of \<^verbatim>\<open>process\<close>)\<close>

text \<open>
  Lines 61 to 64: a patch size of 0 is replaced by \<^verbatim>\<open>inputSize.x\<close>. The assignment
  narrows a \<^verbatim>\<open>size_t\<close> to the \<^verbatim>\<open>uint32_t\<close> parameter.
\<close>

definition effectivePatchSize :: "uint32_t \<Rightarrow> vec3s \<Rightarrow> uint32_t" where
  "effectivePatchSize inferencePatchSize inputSize =
     (if inferencePatchSize = 0 then ucast (vec_x inputSize) else inferencePatchSize)"

text \<open>
  Line 65: the asserted condition. Both operands are \<^verbatim>\<open>uint32_t\<close>, and so is the
  product.
\<close>

definition patchSizeAsserted :: "uint32_t \<Rightarrow> uint32_t \<Rightarrow> bool" where
  "patchSizeAsserted inferencePatchSize inferencePatchOverlap \<longleftrightarrow>
     inferencePatchSize > inferencePatchOverlap * 2"

text \<open>
  Lines 74 to 105: the four branches that choose the patch at the cursor \<open>sv\<close>
  (\<^verbatim>\<open>startPixelValid\<close>). In line 104 the product \<^verbatim>\<open>2 * inferencePatchOverlap\<close> is
  computed in 32 bits and then widened.
\<close>

definition planStep :: "size_t \<Rightarrow> uint32_t \<Rightarrow> uint32_t \<Rightarrow> size_t \<Rightarrow> patch" where
  "planStep numPixels inferencePatchSize inferencePatchOverlap sv =
     (if sv = 0 \<and> numPixels - sv \<le> ucast inferencePatchSize then
        \<lparr>startPixel = 0, patchSize = numPixels - sv,
         startPixelValid = sv, patchSizeValid = numPixels - sv\<rparr>
      else if sv = 0 then
        \<lparr>startPixel = 0, patchSize = ucast inferencePatchSize,
         startPixelValid = sv,
         patchSizeValid = ucast inferencePatchSize - ucast inferencePatchOverlap\<rparr>
      else if numPixels - (sv - ucast inferencePatchOverlap) \<le> ucast inferencePatchSize then
        \<lparr>startPixel = sv - ucast inferencePatchOverlap,
         patchSize = numPixels - (sv - ucast inferencePatchOverlap),
         startPixelValid = sv,
         patchSizeValid =
           numPixels - (sv - ucast inferencePatchOverlap) - ucast inferencePatchOverlap\<rparr>
      else
        \<lparr>startPixel = sv - ucast inferencePatchOverlap,
         patchSize = ucast inferencePatchSize,
         startPixelValid = sv,
         patchSizeValid = ucast inferencePatchSize - ucast (2 * inferencePatchOverlap)\<rparr>)"

text \<open>
  The loop of line 71 with everything but the planning left out: it collects the
  patches in the order the loop visits them. Without the asserted precondition the loop
  need not end (a valid length of 0 leaves the cursor where it is), so the result is an
  option and \<open>None\<close> stands for a loop that runs forever.
\<close>

partial_function (option) planLoop ::
  "size_t \<Rightarrow> uint32_t \<Rightarrow> uint32_t \<Rightarrow> size_t \<Rightarrow> patch list option" where
  "planLoop numPixels inferencePatchSize inferencePatchOverlap sv =
     (if sv < numPixels then
        (let p = planStep numPixels inferencePatchSize inferencePatchOverlap sv in
         Option.bind
           (planLoop numPixels inferencePatchSize inferencePatchOverlap (sv + patchSizeValid p))
           (\<lambda>ps. Some (p # ps)))
      else Some [])"

declare planLoop.simps [code]

text \<open>The two index ranges of a patch, as sets of positions on the axis.\<close>

definition validWindow :: "patch \<Rightarrow> nat set" where
  "validWindow p =
     {unat (startPixelValid p) ..< unat (startPixelValid p) + unat (patchSizeValid p)}"

definition patchWindow :: "patch \<Rightarrow> nat set" where
  "patchWindow p = {unat (startPixel p) ..< unat (startPixel p) + unat (patchSize p)}"

subsection \<open>The region copy (\<^verbatim>\<open>copyPatchToOutput\<close>, lines 222 to 284)\<close>

text \<open>
  Modelled from the spec: \<^verbatim>\<open>layoutPermutation\<close> is declared in line 290 and defined
  outside the sources. By the spec, for two layouts of equal length that are permutations
  of the same tokens, \<open>permutation[i]\<close> is the index in \<open>currentLayout\<close> of the axis at
  position \<open>i\<close> of \<open>outLayout\<close>; anything else is a configuration error, which is
  \<open>None\<close> here.
\<close>

fun indexOf :: "'a list \<Rightarrow> 'a \<Rightarrow> nat" where
  "indexOf [] c = 0"
| "indexOf (d # ds) c = (if d = c then 0 else Suc (indexOf ds c))"

definition layoutPermutation :: "string \<Rightarrow> string \<Rightarrow> int list option" where
  "layoutPermutation currentLayout outLayout =
     (if length currentLayout = length outLayout \<and> distinct currentLayout
         \<and> set currentLayout = set outLayout
      then Some (map (\<lambda>c. int (indexOf currentLayout c)) outLayout)
      else None)"

text \<open>
  An unchecked array read \<^verbatim>\<open>xs[i]\<close>: defined inside the array only.
\<close>

definition readAt :: "'a list \<Rightarrow> size_t \<Rightarrow> 'a option" where
  "readAt xs i = (if unat i < length xs then Some (xs ! unat i) else None)"

text \<open>\<^verbatim>\<open>outAccessor[0][i][j][k]\<close> of lines 277 to 280.\<close>

definition accessorRead :: "'m accessor4 \<Rightarrow> size_t \<Rightarrow> size_t \<Rightarrow> size_t \<Rightarrow> 'm option" where
  "accessorRead outAccessor i j k =
     Option.bind (readAt outAccessor 0) (\<lambda>batch.
     Option.bind (readAt batch i) (\<lambda>slice.
     Option.bind (readAt slice j) (\<lambda>line.
     readAt line k)))"

text \<open>
  Lines 236 to 265: the ranges start at the full extent, and the first of the positions
  1, 2, 3 of the permutation that holds 3 narrows its axis. \<open>sv\<close>, \<open>sp\<close> and \<open>psv\<close> are
  the parameters \<^verbatim>\<open>startPixelValid\<close>, \<^verbatim>\<open>startPixel\<close> and \<^verbatim>\<open>patchSizeValid\<close>. Reading a
  position that the permutation vector does not have is undefined (\<open>None\<close>).
\<close>

definition fullRanges :: "vec3s \<Rightarrow> axisRanges" where
  "fullRanges outputSize =
     \<lparr>outSliceStart = 0, outSliceEnd = vec_z outputSize, outSliceOffset = 0,
      outLineStart = 0, outLineEnd = vec_y outputSize, outLineOffset = 0,
      outPixelStart = 0, outPixelEnd = vec_x outputSize, outPixelOffset = 0\<rparr>"

definition narrowRanges ::
  "int list \<Rightarrow> vec3s \<Rightarrow> size_t \<Rightarrow> size_t \<Rightarrow> size_t \<Rightarrow> axisRanges option" where
  "narrowRanges permutation outputSize sv sp psv =
     (case readAt permutation 1 of None \<Rightarrow> None | Some p1 \<Rightarrow>
        if p1 = 3 then
          Some ((fullRanges outputSize)
            \<lparr>outSliceStart := sv, outSliceEnd := sv + psv, outSliceOffset := sp\<rparr>)
        else (case readAt permutation 2 of None \<Rightarrow> None | Some p2 \<Rightarrow>
          if p2 = 3 then
            Some ((fullRanges outputSize)
              \<lparr>outLineStart := sv, outLineEnd := sv + psv, outLineOffset := sp\<rparr>)
          else (case readAt permutation 3 of None \<Rightarrow> None | Some p3 \<Rightarrow>
            if p3 = 3 then
              Some ((fullRanges outputSize)
                \<lparr>outPixelStart := sv, outPixelEnd := sv + psv, outPixelOffset := sp\<rparr>)
            else Some (fullRanges outputSize))))"

text \<open>The index expression of lines 274 to 276, computed in \<^verbatim>\<open>size_t\<close>.\<close>

definition outputIndex :: "vec3s \<Rightarrow> size_t \<Rightarrow> size_t \<Rightarrow> size_t \<Rightarrow> size_t" where
  "outputIndex outputSize outSliceIdx outLineIdx outPixelIdx =
     outSliceIdx * vec_y outputSize * vec_x outputSize + outLineIdx * vec_x outputSize
       + outPixelIdx"

text \<open>
  Lines 273 to 280: one assignment. \<^verbatim>\<open>clampCast\<close> is defined outside the sources and is
  a parameter. A read outside the tensor or a write outside the buffer is undefined.
\<close>

definition writeSample ::
  "('m \<Rightarrow> 'o) \<Rightarrow> 'm accessor4 \<Rightarrow> vec3s \<Rightarrow> axisRanges \<Rightarrow> size_t \<Rightarrow> size_t \<Rightarrow> size_t
    \<Rightarrow> 'o Container \<Rightarrow> stop + 'o Container" where
  "writeSample clampCast outAccessor outputSize r outSliceIdx outLineIdx outPixelIdx buf =
     (case accessorRead outAccessor (outSliceIdx - outSliceOffset r)
             (outLineIdx - outLineOffset r) (outPixelIdx - outPixelOffset r) of
        None \<Rightarrow> Inl UndefinedBehaviour
      | Some v \<Rightarrow>
          (let a = unat (outputIndex outputSize outSliceIdx outLineIdx outPixelIdx) in
           if a < length buf then Inr (buf[a := Some (clampCast v)])
           else Inl UndefinedBehaviour))"

text \<open>
  \<^verbatim>\<open>for (size_t i = start; i < end; i++) body(i)\<close> over a state that the body updates;
  the loop stops at the first iteration that leaves the normal flow.
\<close>

function forLoop ::
  "size_t \<Rightarrow> size_t \<Rightarrow> (size_t \<Rightarrow> 's \<Rightarrow> stop + 's) \<Rightarrow> 's \<Rightarrow> stop + 's" where
  "forLoop i e body st =
     (if i < e then
        (case body i st of Inl s \<Rightarrow> Inl s | Inr st' \<Rightarrow> forLoop (i + 1) e body st')
      else Inr st)"
  by pat_completeness auto
termination
proof (relation "measure (\<lambda>(i, e, body, st). unat e - unat i)")
  show "wf (measure (\<lambda>(i, e, body, st). unat e - unat i))"
    for body :: "size_t \<Rightarrow> 's \<Rightarrow> stop + 's" and st :: 's
    by simp
next
  fix i e :: size_t and body :: "size_t \<Rightarrow> 's \<Rightarrow> stop + 's" and st b :: 's
  assume "i < e"
  then have lt: "unat i < unat e" by (simp add: word_less_nat_alt)
  moreover have "unat e < 2 ^ LENGTH(64)" by (rule unsigned_less)
  ultimately have "unat i + unat (1 :: size_t) < 2 ^ LENGTH(64)" by simp
  then have "unat (i + 1) = unat i + unat (1 :: size_t)" by (simp only: unat_add_lem)
  with lt show "((i + 1, e, body, b), (i, e, body, st))
      \<in> measure (\<lambda>(i, e, body, st). unat e - unat i)"
    by simp
qed

declare forLoop.simps [simp del]

text \<open>Lines 267 to 283: the three nested loops over the ranges.\<close>

definition copyRegion ::
  "('m \<Rightarrow> 'o) \<Rightarrow> 'm accessor4 \<Rightarrow> vec3s \<Rightarrow> axisRanges \<Rightarrow> 'o Container
    \<Rightarrow> stop + 'o Container" where
  "copyRegion clampCast outAccessor outputSize r pDataOut =
     forLoop (outSliceStart r) (outSliceEnd r) (\<lambda>outSliceIdx.
       forLoop (outLineStart r) (outLineEnd r) (\<lambda>outLineIdx.
         forLoop (outPixelStart r) (outPixelEnd r) (\<lambda>outPixelIdx.
           writeSample clampCast outAccessor outputSize r outSliceIdx outLineIdx outPixelIdx)))
       pDataOut"

text \<open>
  The ranges that a call computes from its two layouts (lines 234 to 265). A
  configuration error of \<^verbatim>\<open>layoutPermutation\<close> and an undefined read both leave no
  ranges.
\<close>

definition patchRanges ::
  "string \<Rightarrow> string \<Rightarrow> vec3s \<Rightarrow> size_t \<Rightarrow> size_t \<Rightarrow> size_t \<Rightarrow> axisRanges option" where
  "patchRanges modelOutputLayout finalLayout outputSize sv sp psv =
     (case layoutPermutation modelOutputLayout finalLayout of
        None \<Rightarrow> None
      | Some permutation \<Rightarrow> narrowRanges permutation outputSize sv sp psv)"

text \<open>
  The whole of \<^verbatim>\<open>copyPatchToOutput\<close>. How \<^verbatim>\<open>layoutPermutation\<close> reports layouts that
  are not permutations of each other is not in the sources; such a call is treated like
  one that reads outside the permutation vector.
\<close>

definition copyPatchToOutput ::
  "('m \<Rightarrow> 'o) \<Rightarrow> 'm accessor4 \<Rightarrow> 'o Container \<Rightarrow> string \<Rightarrow> string \<Rightarrow> vec3s
    \<Rightarrow> size_t \<Rightarrow> size_t \<Rightarrow> size_t \<Rightarrow> stop + 'o Container" where
  "copyPatchToOutput clampCast outAccessor pDataOut modelOutputLayout finalLayout outputSize
      sv sp psv =
     (case patchRanges modelOutputLayout finalLayout outputSize sv sp psv of
        None \<Rightarrow> Inl UndefinedBehaviour
      | Some r \<Rightarrow> copyRegion clampCast outAccessor outputSize r pDataOut)"

subsection \<open>The inference call (\<^verbatim>\<open>process\<close>, lines 34 to 220)\<close>

text \<open>A library call that throws leaves the normal flow with its exception.\<close>

definition called :: "exn + 'a \<Rightarrow> stop + 'a" where
  "called r = (case r of Inl e \<Rightarrow> Inl (Throw e) | Inr a \<Rightarrow> Inr a)"

text \<open>
  \<^verbatim>\<open>assert(c)\<close>: where assertions are compiled in (\<^verbatim>\<open>NDEBUG\<close> not defined) a false
  condition aborts the process; where they are compiled out nothing happens.
\<close>

definition assertion :: "bool \<Rightarrow> bool \<Rightarrow> stop + unit" where
  "assertion assertsEnabled c = (if assertsEnabled \<and> \<not> c then Inl Abort else Inr ())"

text \<open>Line 154: \<^verbatim>\<open>output.to(torch::kFloat)\<close>.\<close>

definition toKFloat :: "('m \<Rightarrow> 'm) \<Rightarrow> 'm Tensor \<Rightarrow> 'm Tensor" where
  "toKFloat f output = output\<lparr>dtype := kFloat, elems := map (map (map (map f))) (elems output)\<rparr>"

text \<open>
  Lines 108 to 156: the input patch is cut out, normalised when a normalisation module is
  present, sent through the model, denormalised when a denormalisation module is present,
  turned into a tensor, brought into the final layout and, when the hint
  \<^verbatim>\<open>modelOutputDataType\<close> says half precision, promoted to float. \<open>forward\<close> is the
  model behind the non-null \<^verbatim>\<open>m_torchModule\<close>. Line 156 moves the tensor to the CPU,
  which changes neither its element type nor its elements.
\<close>

definition modelOutput ::
  "bool \<Rightarrow> ('t, 'v, 'm) TorchOps \<Rightarrow> ('t, 'v) TorchInference \<Rightarrow> ('v \<Rightarrow> exn + 'v)
    \<Rightarrow> DataType \<Rightarrow> 't \<Rightarrow> patch \<Rightarrow> stop + 'm Tensor" where
  "modelOutput assertsEnabled ops ti forward modelOutputDataType inputData p =
     (case called (slice_convert_layout ops inputData (startPixel p)
                     (startPixel p + patchSize p)) of
        Inl s \<Rightarrow> Inl s
      | Inr inputDataPatch \<Rightarrow>
     (case assertion assertsEnabled (\<not> requires_grad ops inputDataPatch) of
        Inl s \<Rightarrow> Inl s
      | Inr _ \<Rightarrow>
     (case called (case m_inputNormalizationModule ti of
                     Some run_normalize \<Rightarrow> run_normalize inputDataPatch
                   | None \<Rightarrow> Inr (ivalueOf ops inputDataPatch)) of
        Inl s \<Rightarrow> Inl s
      | Inr inputDataPatchIvalue \<Rightarrow>
     (case called (forward inputDataPatchIvalue) of
        Inl s \<Rightarrow> Inl s
      | Inr result \<Rightarrow>
     (case called (case m_outputDenormalizationModule ti of
                     Some run_denormalize \<Rightarrow> run_denormalize result
                   | None \<Rightarrow> Inr result) of
        Inl s \<Rightarrow> Inl s
      | Inr result' \<Rightarrow>
     (case called (toTensor ops result') of
        Inl s \<Rightarrow> Inl s
      | Inr output \<Rightarrow>
     (case assertion assertsEnabled (\<not> is_hip output) of
        Inl s \<Rightarrow> Inl s
      | Inr _ \<Rightarrow>
     (case called (changeLayoutOut ops output) of
        Inl s \<Rightarrow> Inl s
      | Inr output' \<Rightarrow>
          Inr (if modelOutputDataType = TypeHalf then toKFloat (toFloat ops) output'
               else output')))))))))"

text \<open>
  Lines 159 to 193: the chain of comparisons of \<^verbatim>\<open>output.dtype()\<close>. Each branch calls
  the instance of \<^verbatim>\<open>copyPatchToOutput\<close> for its element type; \<open>clampCast t\<close> is
  \<^verbatim>\<open>clampCast<OutputType>\<close> on a value of the element type \<open>t\<close>. The chain has no
  final \<^verbatim>\<open>else\<close>.
\<close>

definition dispatchCopy ::
  "(ScalarType \<Rightarrow> 'm \<Rightarrow> 'o) \<Rightarrow> 'm Tensor \<Rightarrow> 'o Container \<Rightarrow> string \<Rightarrow> string \<Rightarrow> vec3s
    \<Rightarrow> size_t \<Rightarrow> size_t \<Rightarrow> size_t \<Rightarrow> stop + 'o Container" where
  "dispatchCopy clampCast output pDataOut modelOutputLayout finalLayout outputSize sv sp psv =
     (if dtype output = kInt8 then
        copyPatchToOutput (clampCast kInt8) (elems output) pDataOut modelOutputLayout
          finalLayout outputSize sv sp psv
      else if dtype output = kUInt8 then
        copyPatchToOutput (clampCast kUInt8) (elems output) pDataOut modelOutputLayout
          finalLayout outputSize sv sp psv
      else if dtype output = kInt16 then
        copyPatchToOutput (clampCast kInt16) (elems output) pDataOut modelOutputLayout
          finalLayout outputSize sv sp psv
      else if dtype output = kInt32 then
        copyPatchToOutput (clampCast kInt32) (elems output) pDataOut modelOutputLayout
          finalLayout outputSize sv sp psv
      else if dtype output = kInt64 then
        copyPatchToOutput (clampCast kInt64) (elems output) pDataOut modelOutputLayout
          finalLayout outputSize sv sp psv
      else if dtype output = kFloat then
        copyPatchToOutput (clampCast kFloat) (elems output) pDataOut modelOutputLayout
          finalLayout outputSize sv sp psv
      else if dtype output = kDouble then
        copyPatchToOutput (clampCast kDouble) (elems output) pDataOut modelOutputLayout
          finalLayout outputSize sv sp psv
      else Inr pDataOut)"

text \<open>Lines 108 to 193: what one iteration does with the patch it has planned.\<close>

definition patchBody ::
  "bool \<Rightarrow> ('t, 'v, 'm) TorchOps \<Rightarrow> ('t, 'v) TorchInference \<Rightarrow> ('v \<Rightarrow> exn + 'v)
    \<Rightarrow> (ScalarType \<Rightarrow> 'm \<Rightarrow> 'o) \<Rightarrow> vec3s \<Rightarrow> string \<Rightarrow> DataType \<Rightarrow> string \<Rightarrow> 't
    \<Rightarrow> patch \<Rightarrow> 'o Container \<Rightarrow> stop + 'o Container" where
  "patchBody assertsEnabled ops ti forward clampCast outputSize finalLayout modelOutputDataType
      modelOutputLayout inputData p pDataOut =
     (case modelOutput assertsEnabled ops ti forward modelOutputDataType inputData p of
        Inl s \<Rightarrow> Inl s
      | Inr output \<Rightarrow>
          dispatchCopy clampCast output pDataOut modelOutputLayout finalLayout outputSize
            (startPixelValid p) (startPixel p) (patchSizeValid p))"

text \<open>
  The loop of lines 70 to 194 with its body: it plans a patch, runs the body on the
  buffer and moves the cursor by the valid length. It ends normally (\<open>None\<close> in the first
  component) or at the first body that leaves the normal flow, and hands back the buffer
  as it is at that moment. A loop that runs forever is \<open>None\<close>.
\<close>

partial_function (option) processLoop ::
  "(patch \<Rightarrow> 'b \<Rightarrow> stop + 'b) \<Rightarrow> size_t \<Rightarrow> uint32_t \<Rightarrow> uint32_t \<Rightarrow> size_t \<Rightarrow> 'b
    \<Rightarrow> (stop option \<times> 'b) option" where
  "processLoop body numPixels inferencePatchSize inferencePatchOverlap sv buf =
     (if sv < numPixels then
        (let p = planStep numPixels inferencePatchSize inferencePatchOverlap sv in
         case body p buf of
           Inl s \<Rightarrow> Some (Some s, buf)
         | Inr buf' \<Rightarrow>
             processLoop body numPixels inferencePatchSize inferencePatchOverlap
               (sv + patchSizeValid p) buf')
      else Some (None, buf))"

declare processLoop.simps [code]

text \<open>
  Lines 197 to 207: the two handlers. Each writes its lines to the error log; after a
  handler control reaches line 219, which returns \<^verbatim>\<open>pDataOut\<close> as it is. An exception
  of another class is not caught.
\<close>

definition caught :: "string \<Rightarrow> exn \<Rightarrow> 'o Container option \<Rightarrow> 'o outcome" where
  "caught modelFilename e pDataOut =
     (case e of
        C10Error what msg_stack \<Rightarrow>
          Returned pDataOut
            [''TorchInference: Error (c10::Error) while running model '' @ [CHR 0x27]
               @ modelFilename @ [CHR 0x27],
             ''TorchInference: '' @ what,
             ''TorchInference: '' @ msg_stack]
      | RuntimeError what \<Rightarrow>
          Returned pDataOut
            [''TorchInference: Error (std::runtime_error) while running model '' @ [CHR 0x27]
               @ modelFilename @ [CHR 0x27],
             ''TorchInference: '' @ what]
      | OtherException \<Rightarrow> Propagated e)"

text \<open>\<^verbatim>\<open>logging::log_error_if(p == nullptr, message)\<close>.\<close>

definition log_error_if_null :: "'a option \<Rightarrow> string \<Rightarrow> string list" where
  "log_error_if_null p message = (case p of None \<Rightarrow> [message] | Some _ \<Rightarrow> [])"

text \<open>
  The whole of \<^verbatim>\<open>process\<close>. \<open>assertsEnabled\<close> says whether the build keeps assertions.
  The parameters \<^verbatim>\<open>imageData\<close>, \<^verbatim>\<open>currentLayout\<close>, \<^verbatim>\<open>modelInputDataType\<close> and
  \<^verbatim>\<open>modelInputLayout\<close> are used by the library calls only and are part of \<open>ops\<close>.
  Line 43 asserts that a model is loaded; lines 47 to 208 run when it is, lines 209 to 217
  when it is not; line 68 allocates the output buffer; line 219 returns \<^verbatim>\<open>pDataOut\<close>.
\<close>

definition process ::
  "bool \<Rightarrow> ('t, 'v, 'm) TorchOps \<Rightarrow> ('t, 'v) TorchInference \<Rightarrow> (ScalarType \<Rightarrow> 'm \<Rightarrow> 'o)
    \<Rightarrow> vec3s \<Rightarrow> vec3s \<Rightarrow> string \<Rightarrow> DataType \<Rightarrow> string \<Rightarrow> uint32_t \<Rightarrow> uint32_t
    \<Rightarrow> 'o outcome option" where
  "process assertsEnabled ops ti clampCast inputSize outputSize finalLayout modelOutputDataType
      modelOutputLayout inferencePatchSize inferencePatchOverlap =
     (case m_torchModule ti of
        None \<Rightarrow>
          if assertsEnabled then Some Aborted
          else Some (Returned None
            (log_error_if_null (m_torchModule ti) ''TorchInference: Error no model loaded.''
             @ log_error_if_null (m_inputNormalizationModule ti)
                 ''TorchInference: Error no normalization module present.''
             @ log_error_if_null (m_outputDenormalizationModule ti)
                 ''TorchInference: Error no denormalization module present.''))
      | Some forward \<Rightarrow>
          (case from_blob ops of
             Inl e \<Rightarrow> Some (caught (m_modelFilename ti) e None)
           | Inr inputData \<Rightarrow>
               (let ips = effectivePatchSize inferencePatchSize inputSize in
                if assertsEnabled \<and> \<not> patchSizeAsserted ips inferencePatchOverlap
                then Some Aborted
                else
                  (let numPixels = vec_x inputSize;
                       pDataOut = replicate
                         (unat (vec_x outputSize * vec_y outputSize * vec_z outputSize)) None
                   in
                   case processLoop
                          (patchBody assertsEnabled ops ti forward clampCast outputSize
                             finalLayout modelOutputDataType modelOutputLayout inputData)
                          numPixels ips inferencePatchOverlap 0 pDataOut of
                     None \<Rightarrow> None
                   | Some (None, buf) \<Rightarrow> Some (Returned (Some buf) [])
                   | Some (Some (Throw e), buf) \<Rightarrow>
                       Some (caught (m_modelFilename ti) e (Some buf))
                   | Some (Some Abort, buf) \<Rightarrow> Some Aborted
                   | Some (Some UndefinedBehaviour, buf) \<Rightarrow> Some Undefined))))"

subsection \<open>Predicates of the statements and the proofs\<close>

text \<open>
  What every planned patch satisfies, in numbers: the valid length is positive, the valid
  sub-window ends inside the axis and lies inside the patch window, the patch window is no
  longer than the patch size and ends inside the axis, and a patch that does not start
  the axis starts its window one overlap before its valid sub-window, without wrapping
  around.
\<close>

definition planOK :: "size_t \<Rightarrow> uint32_t \<Rightarrow> uint32_t \<Rightarrow> patch \<Rightarrow> bool" where
  "planOK np ips ov p \<longleftrightarrow>
     0 < unat (patchSizeValid p) \<and>
     unat (startPixelValid p) + unat (patchSizeValid p) \<le> unat np \<and>
     unat (startPixel p) \<le> unat (startPixelValid p) \<and>
     unat (startPixelValid p) + unat (patchSizeValid p) \<le> unat (startPixel p) + unat (patchSize p) \<and>
     unat (patchSize p) \<le> unat ips \<and>
     unat (startPixel p) + unat (patchSize p) \<le> unat np \<and>
     (startPixelValid p = 0 \<or>
        (unat ips - unat ov \<le> unat (startPixelValid p) \<and>
         startPixel p = startPixelValid p - ucast ov \<and>
         unat (startPixelValid p - ucast ov) = unat (startPixelValid p) - unat ov))"

text \<open>
  A list of patches is a chain from \<open>a\<close> to \<open>b\<close> when the valid sub-window of the first
  starts at \<open>a\<close>, each next one starts where the one before ends, and the last ends at
  \<open>b\<close>.
\<close>

fun chain :: "nat \<Rightarrow> nat \<Rightarrow> patch list \<Rightarrow> bool" where
  "chain a b [] = (a = b)"
| "chain a b (p # ps) =
     (unat (startPixelValid p) = a \<and> chain (a + unat (patchSizeValid p)) b ps)"

text \<open>
  The bodies of the iterations run one after the other on the planned patches, up to the
  first that leaves the normal flow.
\<close>

fun runBodies :: "(patch \<Rightarrow> 'b \<Rightarrow> stop + 'b) \<Rightarrow> patch list \<Rightarrow> 'b \<Rightarrow> stop option \<times> 'b" where
  "runBodies body [] buf = (None, buf)"
| "runBodies body (p # ps) buf =
     (case body p buf of Inl s \<Rightarrow> (Some s, buf) | Inr buf' \<Rightarrow> runBodies body ps buf')"

text \<open>The coordinates that the three loops visit.\<close>

definition inRanges :: "axisRanges \<Rightarrow> size_t \<Rightarrow> size_t \<Rightarrow> size_t \<Rightarrow> bool" where
  "inRanges r s l p \<longleftrightarrow>
     outSliceStart r \<le> s \<and> s < outSliceEnd r
     \<and> outLineStart r \<le> l \<and> l < outLineEnd r
     \<and> outPixelStart r \<le> p \<and> p < outPixelEnd r"

text \<open>
  The value that the copy stores at a buffer address: the address is split into its
  slice, line and pixel coordinate, and the sample is read at the coordinates minus the
  offsets.
\<close>

definition intended ::
  "('m \<Rightarrow> 'o) \<Rightarrow> 'm accessor4 \<Rightarrow> vec3s \<Rightarrow> axisRanges \<Rightarrow> nat \<Rightarrow> 'o option" where
  "intended clampCast outAccessor outputSize r a =
     map_option clampCast
       (accessorRead outAccessor
          (of_nat (a div (unat (vec_y outputSize) * unat (vec_x outputSize)))
             - outSliceOffset r)
          (of_nat (a mod (unat (vec_y outputSize) * unat (vec_x outputSize))
                     div unat (vec_x outputSize))
             - outLineOffset r)
          (of_nat (a mod unat (vec_x outputSize)) - outPixelOffset r))"

text \<open>
  \<open>updatedOn V A b0 b\<close>: the buffer \<open>b\<close> is \<open>b0\<close> with the element at every address
  \<open>a\<close> of \<open>A\<close> replaced by \<open>V a\<close>, and nothing else changed.
\<close>

definition updatedOn :: "(nat \<Rightarrow> 'c) \<Rightarrow> nat set \<Rightarrow> 'c list \<Rightarrow> 'c list \<Rightarrow> bool" where
  "updatedOn V A b0 b \<longleftrightarrow>
     length b = length b0 \<and> (\<forall>a<length b0. b ! a = (if a \<in> A then V a else b0 ! a))"

subsection \<open>A concrete configuration\<close>

text \<open>
  A small configuration on which the model is evaluated: the library cuts a patch by
  handing on its start position, the model output is a tensor of element type \<open>t\<close> and
  shape \<open>1 \<times> 1 \<times> 1 \<times> 2\<close> with the elements 7 and 8, no auxiliary module is loaded, and
  the model file is called \<^verbatim>\<open>model.pt\<close>. \<open>failsAfterFirst\<close> is a model that works on
  the patch starting at 0 and throws \<^verbatim>\<open>c10::Error\<close> on every other patch.
\<close>

definition exampleOps :: "ScalarType \<Rightarrow> (size_t, size_t, nat) TorchOps" where
  "exampleOps t =
     \<lparr>from_blob = Inr 0,
      slice_convert_layout = (\<lambda>inputData a b. Inr a),
      requires_grad = (\<lambda>x. False),
      ivalueOf = (\<lambda>x. x),
      toTensor = (\<lambda>v. Inr \<lparr>dtype = t, is_hip = False, elems = [[[[7, 8]]]]\<rparr>),
      changeLayoutOut = Inr,
      toFloat = (\<lambda>x. x)\<rparr>"

definition exampleInference :: "(size_t \<Rightarrow> exn + size_t) option \<Rightarrow> (size_t, size_t) TorchInference" where
  "exampleInference model =
     \<lparr>m_torchModule = model, m_inputNormalizationModule = None,
      m_outputDenormalizationModule = None, m_modelFilename = ''model.pt''\<rparr>"

definition failsAfterFirst :: "size_t \<Rightarrow> exn + size_t" where
  "failsAfterFirst s = (if s = 0 then Inr s else Inl (C10Error ''bad input'' ''frame 0''))"

section \<open>Auxiliary facts\<close>

subsection \<open>Words as numbers\<close>

lemma unat_ucast_32_64: "unat (ucast (w :: uint32_t) :: size_t) = unat w"
proof -
  have "unat w < 2 ^ 32" using unsigned_less [of w] by simp
  then have "unat w < (2 ^ 64 :: nat)" by simp
  then show ?thesis by (simp add: unsigned_ucast_eq take_bit_nat_eq_self)
qed

lemma unat_double_overlap:
  assumes "2 * unat (ov :: uint32_t) < unat (ips :: uint32_t)"
  shows "unat (2 * ov) = 2 * unat ov"
proof -
  have "unat ips < 2 ^ 32" using unsigned_less [of ips] by simp
  with assms have "unat (2 :: uint32_t) * unat ov < 2 ^ LENGTH(32)" by simp
  then have "unat (2 * ov) = unat (2 :: uint32_t) * unat ov"
    by (simp only: unat_mult_lem)
  then show ?thesis by simp
qed

lemma forLoop_measure:
  fixes i e :: size_t
  assumes "i < e"
  shows "unat (i + 1) = unat i + 1" and "unat e - unat (i + 1) < unat e - unat i"
proof -
  from assms have lt: "unat i < unat e" by (simp add: word_less_nat_alt)
  moreover have "unat e < 2 ^ LENGTH(64)" by (rule unsigned_less)
  ultimately have "unat i + unat (1 :: size_t) < 2 ^ LENGTH(64)" by simp
  then have "unat (i + 1) = unat i + unat (1 :: size_t)" by (simp only: unat_add_lem)
  then show "unat (i + 1) = unat i + 1" by simp
  with lt show "unat e - unat (i + 1) < unat e - unat i" by simp
qed

subsection \<open>The planner: one step\<close>

lemma planStep_first:
  assumes pre: "2 * unat ov < unat ips" and lt: "0 < np"
  shows "planOK np ips ov (planStep np ips ov 0)"
    and "startPixelValid (planStep np ips ov 0) = 0"
    and "patchSizeValid (planStep np ips ov 0) = np \<or>
         unat ips - unat ov \<le> unat (patchSizeValid (planStep np ips ov 0))"
proof -
  have N: "0 < unat np" using lt by (simp add: word_less_nat_alt)
  have O: "unat (ucast ov :: size_t) = unat ov" and P: "unat (ucast ips :: size_t) = unat ips"
    by (rule unat_ucast_32_64)+
  have le: "(ucast ov :: size_t) \<le> ucast ips"
    using pre by (simp add: word_le_nat_alt O P)
  have sub: "unat (ucast ips - ucast ov :: size_t) = unat ips - unat ov"
    using unat_sub [OF le] by (simp add: O P)
  show "planOK np ips ov (planStep np ips ov 0)"
    using pre N by (auto simp: planOK_def planStep_def sub P word_le_nat_alt)
  show "startPixelValid (planStep np ips ov 0) = 0"
    by (simp add: planStep_def)
  show "patchSizeValid (planStep np ips ov 0) = np \<or>
         unat ips - unat ov \<le> unat (patchSizeValid (planStep np ips ov 0))"
    by (simp add: planStep_def sub)
qed

lemma planStep_later:
  assumes pre: "2 * unat ov < unat ips" and lt: "sv < np" and nz: "sv \<noteq> 0"
    and inv: "unat ips - unat ov \<le> unat sv"
  shows "planOK np ips ov (planStep np ips ov sv)"
    and "startPixelValid (planStep np ips ov sv) = sv"
    and "unat ips - unat ov \<le> unat sv + unat (patchSizeValid (planStep np ips ov sv))"
proof -
  have N: "unat sv < unat np" using lt by (simp add: word_less_nat_alt)
  have O: "unat (ucast ov :: size_t) = unat ov" and P: "unat (ucast ips :: size_t) = unat ips"
    by (rule unat_ucast_32_64)+
  have OS: "unat ov < unat sv" using pre inv by arith
  then have le1: "(ucast ov :: size_t) \<le> sv" by (simp add: word_le_nat_alt O)
  have sp: "unat (sv - ucast ov) = unat sv - unat ov"
    using unat_sub [OF le1] by (simp add: O)
  have le2: "sv - ucast ov \<le> np" using N by (simp add: word_le_nat_alt sp)
  have rest: "unat (np - (sv - ucast ov)) = unat np - (unat sv - unat ov)"
    using unat_sub [OF le2] by (simp add: sp)
  have le3: "(ucast ov :: size_t) \<le> np - (sv - ucast ov)"
    using N OS by (simp add: word_le_nat_alt rest O)
  have lastv: "unat (np - (sv - ucast ov) - ucast ov) = unat np - unat sv"
    using unat_sub [OF le3] N OS by (simp add: rest O)
  have dbl: "unat (ucast (2 * ov) :: size_t) = 2 * unat ov"
    using unat_double_overlap [OF pre] by (simp add: unat_ucast_32_64)
  have le4: "(ucast (2 * ov) :: size_t) \<le> ucast ips"
    using pre by (simp add: word_le_nat_alt dbl P)
  have midv: "unat (ucast ips - ucast (2 * ov) :: size_t) = unat ips - 2 * unat ov"
    using unat_sub [OF le4] by (simp add: dbl P)
  have le5: "sv \<le> np" using N by (simp add: word_le_nat_alt)
  have direct: "unat (np - sv) = unat np - unat sv" by (rule unat_sub [OF le5])
  show "planOK np ips ov (planStep np ips ov sv)"
    using pre N OS inv nz
    by (auto simp: planOK_def planStep_def sp rest lastv direct midv P word_le_nat_alt)
  show "startPixelValid (planStep np ips ov sv) = sv"
    by (simp add: planStep_def)
  show "unat ips - unat ov \<le> unat sv + unat (patchSizeValid (planStep np ips ov sv))"
    using pre N OS inv nz
    by (auto simp: planStep_def sp rest lastv direct midv P word_le_nat_alt)
qed

subsection \<open>The planner: the loop\<close>

lemma planLoop_stop: "\<not> sv < np \<Longrightarrow> planLoop np ips ov sv = Some []"
  by (subst planLoop.simps) simp

lemma planLoop_unfold:
  "sv < np \<Longrightarrow> planLoop np ips ov (sv + patchSizeValid (planStep np ips ov sv)) = Some ps
    \<Longrightarrow> planLoop np ips ov sv = Some (planStep np ips ov sv # ps)"
  by (subst planLoop.simps) (simp add: Let_def)

lemma planLoop_total_from:
  assumes pre: "2 * unat ov < unat ips"
  shows "sv \<le> np \<Longrightarrow> sv = 0 \<or> unat ips - unat ov \<le> unat sv \<or> sv = np \<Longrightarrow>
         \<exists>ps. planLoop np ips ov sv = Some ps \<and> chain (unat sv) (unat np) ps \<and>
              (\<forall>p\<in>set ps. planOK np ips ov p)"
proof (induction "unat np - unat sv" arbitrary: sv rule: less_induct)
  case less
  show ?case
  proof (cases "sv < np")
    case False
    with less.prems(1) have "sv = np" by simp
    then show ?thesis using planLoop_stop [OF False] by simp
  next
    case True
    define p where "p = planStep np ips ov sv"
    have facts: "planOK np ips ov p \<and> startPixelValid p = sv \<and>
        (sv + patchSizeValid p = np \<or> unat ips - unat ov \<le> unat sv + unat (patchSizeValid p))"
    proof (cases "sv = 0")
      case z: True
      from True z have "0 < np" by simp
      from planStep_first [OF pre this] z show ?thesis
        by (auto simp: p_def)
    next
      case nz: False
      with True less.prems(2) have "unat ips - unat ov \<le> unat sv" by auto
      from planStep_later [OF pre True nz this] show ?thesis
        by (simp add: p_def)
    qed
    then have ok: "planOK np ips ov p" and spv: "startPixelValid p = sv" by simp_all
    from ok spv have pos: "0 < unat (patchSizeValid p)"
      and fit: "unat sv + unat (patchSizeValid p) \<le> unat np"
      by (simp_all add: planOK_def)
    have "unat np < 2 ^ LENGTH(64)" by (rule unsigned_less)
    with fit have "unat sv + unat (patchSizeValid p) < 2 ^ LENGTH(64)" by simp
    then have nxt: "unat (sv + patchSizeValid p) = unat sv + unat (patchSizeValid p)"
      by (simp only: unat_add_lem)
    have le': "sv + patchSizeValid p \<le> np" using fit by (simp add: word_le_nat_alt nxt)
    have inv': "sv + patchSizeValid p = 0 \<or> unat ips - unat ov \<le> unat (sv + patchSizeValid p)
        \<or> sv + patchSizeValid p = np"
      using facts by (auto simp: nxt)
    have dec: "unat np - unat (sv + patchSizeValid p) < unat np - unat sv"
      using pos fit by (simp add: nxt)
    from less.hyps [OF dec le' inv'] obtain ps where
      ps: "planLoop np ips ov (sv + patchSizeValid p) = Some ps"
        "chain (unat (sv + patchSizeValid p)) (unat np) ps"
        "\<forall>q\<in>set ps. planOK np ips ov q"
      by blast
    have "planLoop np ips ov sv = Some (p # ps)"
      using planLoop_unfold [OF True] ps(1) by (simp add: p_def)
    moreover have "chain (unat sv) (unat np) (p # ps)"
      using ps(2) spv by (simp add: nxt)
    moreover have "\<forall>q\<in>set (p # ps). planOK np ips ov q"
      using ps(3) ok by simp
    ultimately show ?thesis by blast
  qed
qed

lemma planLoop_total:
  assumes pre: "2 * unat ov < unat ips"
  shows "\<exists>ps. planLoop np ips ov 0 = Some ps \<and> chain 0 (unat np) ps \<and>
              (\<forall>p\<in>set ps. planOK np ips ov p)"
  using planLoop_total_from [OF pre, of 0 np] by simp

lemma chain_le: "chain a b ps \<Longrightarrow> a \<le> b"
proof (induction ps arbitrary: a)
  case Nil
  then show ?case by simp
next
  case (Cons p ps)
  then have "chain (a + unat (patchSizeValid p)) b ps" by simp
  from Cons.IH [OF this] show ?case by simp
qed

lemma chain_union: "chain a b ps \<Longrightarrow> (\<Union>p\<in>set ps. validWindow p) = {a..<b}"
proof (induction ps arbitrary: a)
  case Nil
  then show ?case by simp
next
  case (Cons p ps)
  then have tl: "chain (a + unat (patchSizeValid p)) b ps" and hd: "unat (startPixelValid p) = a"
    by simp_all
  from chain_le [OF tl] have "a + unat (patchSizeValid p) \<le> b" .
  then have "{a..<a + unat (patchSizeValid p)} \<union> {a + unat (patchSizeValid p)..<b} = {a..<b}"
    by auto
  with Cons.IH [OF tl] hd show ?case by (simp add: validWindow_def)
qed

lemma chain_starts:
  "chain a b ps \<Longrightarrow> q \<in> set ps \<Longrightarrow> a \<le> unat (startPixelValid q)"
proof (induction ps arbitrary: a)
  case Nil
  then show ?case by simp
next
  case (Cons p ps)
  show ?case
  proof (cases "q = p")
    case True
    with Cons.prems show ?thesis by simp
  next
    case False
    with Cons.prems have "q \<in> set ps" and "chain (a + unat (patchSizeValid p)) b ps" by simp_all
    from Cons.IH [OF this(2) this(1)] show ?thesis by simp
  qed
qed

lemma chain_ordered:
  assumes "chain a b ps" and "\<forall>p\<in>set ps. 0 < unat (patchSizeValid p)"
  shows "sorted_wrt (\<lambda>p q. validWindow p \<inter> validWindow q = {}
            \<and> startPixelValid p < startPixelValid q) ps"
  using assms
proof (induction ps arbitrary: a)
  case Nil
  then show ?case by simp
next
  case (Cons p ps)
  then have tl: "chain (a + unat (patchSizeValid p)) b ps" and hd: "unat (startPixelValid p) = a"
    and pos: "0 < unat (patchSizeValid p)"
    by simp_all
  have "validWindow p \<inter> validWindow q = {} \<and> startPixelValid p < startPixelValid q"
    if "q \<in> set ps" for q
  proof -
    from chain_starts [OF tl that] have "a + unat (patchSizeValid p) \<le> unat (startPixelValid q)" .
    with hd pos show ?thesis by (auto simp: validWindow_def word_less_nat_alt)
  qed
  moreover from Cons.IH [OF tl] Cons.prems(2) have "sorted_wrt (\<lambda>p q. validWindow p \<inter> validWindow q = {}
            \<and> startPixelValid p < startPixelValid q) ps" by simp
  ultimately show ?case by simp
qed

section \<open>The patch planner\<close>

text \<open>
  The precondition of the planner is \<open>inferencePatchSize > 2 * inferencePatchOverlap\<close>,
  read in the integers: \<open>2 * unat inferencePatchOverlap < unat inferencePatchSize\<close>. The
  patch size is the one the loop uses, that is, after lines 61 to 64.
\<close>

text \<open>
  C1: for every \<open>numPixels\<close> (also for 0, where no patch is planned) and every patch size
  and overlap with \<open>patchSize > 2 * overlap\<close>, the planning loop ends with a list of
  patches whose valid sub-windows have exactly \<open>[0, numPixels)\<close> as their union; any two
  of them, taken in the order of emission, are disjoint, and the later one has the strictly
  larger \<open>startPixelValid\<close>.
\<close>

theorem planLoop_tiles_axis:
  assumes "2 * unat inferencePatchOverlap < unat inferencePatchSize"
  shows "\<exists>ps. planLoop numPixels inferencePatchSize inferencePatchOverlap 0 = Some ps
           \<and> (\<Union>p\<in>set ps. validWindow p) = {0..<unat numPixels}
           \<and> sorted_wrt (\<lambda>p q. validWindow p \<inter> validWindow q = {}
                 \<and> startPixelValid p < startPixelValid q) ps"
proof -
  from planLoop_total [OF assms, of numPixels] obtain ps where
    ps: "planLoop numPixels inferencePatchSize inferencePatchOverlap 0 = Some ps"
      "chain 0 (unat numPixels) ps"
      "\<forall>p\<in>set ps. planOK numPixels inferencePatchSize inferencePatchOverlap p"
    by blast
  from ps(3) have pos: "\<forall>p\<in>set ps. 0 < unat (patchSizeValid p)"
    by (simp add: planOK_def)
  from ps(1) chain_union [OF ps(2)] chain_ordered [OF ps(2) pos] show ?thesis by blast
qed

theorem planLoop_tiles_axis_witness:
  "2 * unat (1 :: uint32_t) < unat (4 :: uint32_t)
   \<and> (\<exists>ps. planLoop 10 4 1 0 = Some ps
           \<and> (\<Union>p\<in>set ps. validWindow p) = {0..<unat (10 :: size_t)}
           \<and> sorted_wrt (\<lambda>p q. validWindow p \<inter> validWindow q = {}
                 \<and> startPixelValid p < startPixelValid q) ps)"
  using planLoop_tiles_axis [of 1 4 10] by simp

text \<open>
  C3: under the precondition every iteration of the planning loop computes a strictly
  positive \<open>patchSizeValid\<close>, so the cursor \<open>startPixelValid\<close> strictly grows (the
  addition does not wrap around); the loop plans nothing more once the cursor has reached
  \<open>numPixels\<close>; and it ends for every \<open>numPixels\<close>.
\<close>

theorem planLoop_progress:
  assumes "2 * unat inferencePatchOverlap < unat inferencePatchSize"
  shows "(\<exists>ps. planLoop numPixels inferencePatchSize inferencePatchOverlap 0 = Some ps
            \<and> (\<forall>p\<in>set ps. 0 < patchSizeValid p
                  \<and> startPixelValid p < startPixelValid p + patchSizeValid p))
         \<and> (\<forall>sv. numPixels \<le> sv \<longrightarrow>
               planLoop numPixels inferencePatchSize inferencePatchOverlap sv = Some [])"
proof -
  from planLoop_total [OF assms, of numPixels] obtain ps where
    ps: "planLoop numPixels inferencePatchSize inferencePatchOverlap 0 = Some ps"
      "\<forall>p\<in>set ps. planOK numPixels inferencePatchSize inferencePatchOverlap p"
    by blast
  have "0 < patchSizeValid p \<and> startPixelValid p < startPixelValid p + patchSizeValid p"
    if "p \<in> set ps" for p
  proof -
    from ps(2) that have pos: "0 < unat (patchSizeValid p)"
      and fit: "unat (startPixelValid p) + unat (patchSizeValid p) \<le> unat numPixels"
      by (simp_all add: planOK_def)
    have "unat numPixels < 2 ^ LENGTH(64)" by (rule unsigned_less)
    with fit have "unat (startPixelValid p) + unat (patchSizeValid p) < 2 ^ LENGTH(64)" by simp
    then have "unat (startPixelValid p + patchSizeValid p)
        = unat (startPixelValid p) + unat (patchSizeValid p)"
      by (simp only: unat_add_lem)
    with pos show ?thesis by (simp add: word_less_nat_alt)
  qed
  moreover have "planLoop numPixels inferencePatchSize inferencePatchOverlap sv = Some []"
    if "numPixels \<le> sv" for sv
    using that by (intro planLoop_stop) simp
  ultimately show ?thesis using ps(1) by blast
qed

theorem planLoop_progress_witness:
  "2 * unat (1 :: uint32_t) < unat (4 :: uint32_t)
   \<and> (\<exists>ps. planLoop 10 4 1 0 = Some ps
            \<and> (\<forall>p\<in>set ps. 0 < patchSizeValid p
                  \<and> startPixelValid p < startPixelValid p + patchSizeValid p))
   \<and> planLoop 10 4 1 10 = Some []"
  using planLoop_progress [of 1 4 10] by simp

text \<open>
  C4: under the precondition the valid sub-window of every planned patch lies inside its
  patch window, and the length of the patch window is at most \<open>inferencePatchSize\<close>.
\<close>

theorem planLoop_windows:
  assumes "2 * unat inferencePatchOverlap < unat inferencePatchSize"
  shows "\<exists>ps. planLoop numPixels inferencePatchSize inferencePatchOverlap 0 = Some ps
           \<and> (\<forall>p\<in>set ps. validWindow p \<subseteq> patchWindow p
                 \<and> unat (patchSize p) \<le> unat inferencePatchSize)"
proof -
  from planLoop_total [OF assms, of numPixels] obtain ps where
    ps: "planLoop numPixels inferencePatchSize inferencePatchOverlap 0 = Some ps"
      "\<forall>p\<in>set ps. planOK numPixels inferencePatchSize inferencePatchOverlap p"
    by blast
  from ps(2) have "\<forall>p\<in>set ps. validWindow p \<subseteq> patchWindow p
      \<and> unat (patchSize p) \<le> unat inferencePatchSize"
    by (auto simp: planOK_def validWindow_def patchWindow_def)
  with ps(1) show ?thesis by blast
qed

theorem planLoop_windows_witness:
  "2 * unat (1 :: uint32_t) < unat (4 :: uint32_t)
   \<and> (\<exists>ps. planLoop 10 4 1 0 = Some ps
           \<and> (\<forall>p\<in>set ps. validWindow p \<subseteq> patchWindow p
                 \<and> unat (patchSize p) \<le> unat (4 :: uint32_t)))"
  using planLoop_windows [of 1 4 10] by simp

text \<open>
  C10: under the precondition \<open>inferencePatchSize - inferencePatchOverlap\<close> exceeds
  \<open>inferencePatchOverlap\<close>, and whenever an iteration starts with a cursor
  \<open>startPixelValid > 0\<close> the cursor is at least
  \<open>inferencePatchSize - inferencePatchOverlap\<close>; hence the \<^verbatim>\<open>size_t\<close> subtraction
  \<open>startPixelValid - inferencePatchOverlap\<close>, which gives \<open>startPixel\<close> in the last and
  the middle branch, does not wrap around.
\<close>

theorem planLoop_no_wrap:
  assumes "2 * unat inferencePatchOverlap < unat inferencePatchSize"
  shows "unat inferencePatchOverlap < unat inferencePatchSize - unat inferencePatchOverlap
         \<and> (\<exists>ps. planLoop numPixels inferencePatchSize inferencePatchOverlap 0 = Some ps
              \<and> (\<forall>p\<in>set ps. 0 < startPixelValid p \<longrightarrow>
                    unat inferencePatchSize - unat inferencePatchOverlap
                      \<le> unat (startPixelValid p)
                    \<and> ucast inferencePatchOverlap \<le> startPixelValid p
                    \<and> startPixel p = startPixelValid p - ucast inferencePatchOverlap
                    \<and> unat (startPixelValid p - ucast inferencePatchOverlap)
                        = unat (startPixelValid p) - unat inferencePatchOverlap))"
proof -
  from planLoop_total [OF assms, of numPixels] obtain ps where
    ps: "planLoop numPixels inferencePatchSize inferencePatchOverlap 0 = Some ps"
      "\<forall>p\<in>set ps. planOK numPixels inferencePatchSize inferencePatchOverlap p"
    by blast
  have gap: "unat inferencePatchOverlap < unat inferencePatchSize - unat inferencePatchOverlap"
    using assms by arith
  have "unat inferencePatchSize - unat inferencePatchOverlap \<le> unat (startPixelValid p)
        \<and> ucast inferencePatchOverlap \<le> startPixelValid p
        \<and> startPixel p = startPixelValid p - ucast inferencePatchOverlap
        \<and> unat (startPixelValid p - ucast inferencePatchOverlap)
            = unat (startPixelValid p) - unat inferencePatchOverlap"
    if "p \<in> set ps" and "0 < startPixelValid p" for p
  proof -
    from that(2) have "startPixelValid p \<noteq> 0" by simp
    with ps(2) that(1) have
      inv: "unat inferencePatchSize - unat inferencePatchOverlap \<le> unat (startPixelValid p)"
      and sp: "startPixel p = startPixelValid p - ucast inferencePatchOverlap"
      and sub: "unat (startPixelValid p - ucast inferencePatchOverlap)
            = unat (startPixelValid p) - unat inferencePatchOverlap"
      by (auto simp: planOK_def)
    from gap inv have "unat inferencePatchOverlap \<le> unat (startPixelValid p)" by arith
    then have "ucast inferencePatchOverlap \<le> startPixelValid p"
      by (simp add: word_le_nat_alt unat_ucast_32_64)
    with inv sp sub show ?thesis by simp
  qed
  with gap ps(1) show ?thesis by blast
qed

theorem planLoop_no_wrap_witness:
  "2 * unat (1 :: uint32_t) < unat (4 :: uint32_t)
   \<and> unat (1 :: uint32_t) < unat (4 :: uint32_t) - unat (1 :: uint32_t)
   \<and> (\<exists>ps. planLoop 10 4 1 0 = Some ps
         \<and> (\<forall>p\<in>set ps. 0 < startPixelValid p \<longrightarrow>
               unat (4 :: uint32_t) - unat (1 :: uint32_t) \<le> unat (startPixelValid p)
               \<and> ucast (1 :: uint32_t) \<le> startPixelValid p
               \<and> startPixel p = startPixelValid p - ucast (1 :: uint32_t)
               \<and> unat (startPixelValid p - ucast (1 :: uint32_t))
                   = unat (startPixelValid p) - unat (1 :: uint32_t)))"
  using planLoop_no_wrap [of 1 4 10] by simp

section \<open>The loop of the inference call visits the planned patches\<close>

text \<open>
  Under the precondition the assertion of line 65 holds. The converse fails: the asserted
  product is computed in 32 bits, so an overlap of \<open>2^31\<close> passes with a patch size of
  1, and the single patch that is then planned for 10 pixels has a valid length that has
  wrapped around.
\<close>

lemma precondition_asserted:
  assumes "2 * unat ov < unat ips"
  shows "patchSizeAsserted ips ov"
proof -
  have "unat (ov * 2) = 2 * unat ov"
    using unat_double_overlap [OF assms] by (simp add: mult.commute)
  with assms show ?thesis by (simp add: patchSizeAsserted_def word_less_nat_alt)
qed

lemma assertion_weaker_than_precondition:
  "patchSizeAsserted 1 2147483648
   \<and> planLoop 10 1 2147483648 0
       = Some [\<lparr>startPixel = 0, patchSize = 1, startPixelValid = 0,
                patchSizeValid = 18446744071562067969\<rparr>]"
  by code_simp

lemma planLoop_Nil: "planLoop np ips ov sv = Some [] \<Longrightarrow> \<not> sv < np"
  by (subst (asm) planLoop.simps) (auto simp: Let_def split: if_splits bind_splits)

lemma planLoop_Cons:
  assumes "planLoop np ips ov sv = Some (p # ps)"
  shows "sv < np" and "p = planStep np ips ov sv"
    and "planLoop np ips ov (sv + patchSizeValid p) = Some ps"
  using assms
  by (subst (asm) planLoop.simps; auto simp: Let_def split: if_splits bind_splits)+

lemma processLoop_plan:
  "planLoop np ips ov sv = Some ps
    \<Longrightarrow> processLoop body np ips ov sv buf = Some (runBodies body ps buf)"
proof (induction ps arbitrary: sv buf)
  case Nil
  from planLoop_Nil [OF this] show ?case
    by (subst processLoop.simps) simp
next
  case (Cons p ps)
  note c = planLoop_Cons [OF Cons.prems]
  show ?case
  proof (cases "body p buf")
    case (Inl s)
    with c(1,2) show ?thesis
      by (subst processLoop.simps) (simp add: Let_def)
  next
    case (Inr buf')
    from Cons.IH [OF c(3), of buf'] Inr c(1,2) show ?thesis
      by (subst processLoop.simps) (simp add: Let_def)
  qed
qed

text \<open>
  Under the precondition, stated for the patch size that the loop uses, every call of
  \<^verbatim>\<open>process\<close> ends.
\<close>

lemma process_terminates:
  fixes clampCast :: "ScalarType \<Rightarrow> 'm \<Rightarrow> 'o"
  assumes "2 * unat inferencePatchOverlap < unat (effectivePatchSize inferencePatchSize inputSize)"
  shows "\<exists>res. process assertsEnabled ops ti clampCast inputSize outputSize finalLayout
           modelOutputDataType modelOutputLayout inferencePatchSize inferencePatchOverlap
         = Some res"
proof (cases "m_torchModule ti")
  case None
  then show ?thesis by (simp add: process_def)
next
  case (Some forward)
  show ?thesis
  proof (cases "from_blob ops")
    case (Inl e)
    with Some show ?thesis by (simp add: process_def)
  next
    case (Inr inputData)
    define body where "body = patchBody assertsEnabled ops ti forward clampCast outputSize
        finalLayout modelOutputDataType modelOutputLayout inputData"
    define buf0 :: "'o Container" where "buf0 = replicate
        (unat (vec_x outputSize * vec_y outputSize * vec_z outputSize)) None"
    from planLoop_total [OF assms, of "vec_x inputSize"] obtain ps where
      "planLoop (vec_x inputSize) (effectivePatchSize inferencePatchSize inputSize)
         inferencePatchOverlap 0 = Some ps"
      by blast
    from processLoop_plan [OF this, of body buf0]
    have run: "processLoop body (vec_x inputSize)
        (effectivePatchSize inferencePatchSize inputSize) inferencePatchOverlap 0 buf0
        = Some (runBodies body ps buf0)" .
    obtain st buf where sb: "runBodies body ps buf0 = (st, buf)" by (cases "runBodies body ps buf0")
    show ?thesis
      using Some Inr run sb precondition_asserted [OF assms]
      by (cases st; simp add: process_def Let_def body_def buf0_def split: stop.splits)
  qed
qed

subsection \<open>A patch size of 0\<close>




section \<open>The error paths of the inference call\<close>

text \<open>
  C2 does not hold of the code. With an axis of 4 pixels, patch size 2 and overlap 0 the
  loop plans the patches \<open>[0, 2)\<close> and \<open>[2, 4)\<close>. The model runs on the first and throws
  \<^verbatim>\<open>c10::Error\<close> on the second. The handler logs the model file and the two diagnostic
  texts, and then line 219 returns \<^verbatim>\<open>pDataOut\<close>, which line 68 has set: the caller gets
  the half-filled buffer, not a null pointer.
\<close>

theorem process_returns_partial_buffer_after_throw:
  "process False (exampleOps kFloat) (exampleInference (Some failsAfterFirst)) (\<lambda>t x. x)
     \<lparr>vec_x = 4, vec_y = 1, vec_z = 1\<rparr> \<lparr>vec_x = 4, vec_y = 1, vec_z = 1\<rparr>
     ''NCHW'' TypeFloat ''NCHW'' 2 0
   = Some (Returned (Some [Some 7, Some 8, None, None])
       [''TorchInference: Error (c10::Error) while running model '' @ [CHR 0x27]
          @ ''model.pt'' @ [CHR 0x27],
        ''TorchInference: bad input'',
        ''TorchInference: frame 0''])"
  by code_simp

text \<open>
  C5, as the spec states it, fails in a build that keeps assertions: line 43 asserts that
  a model is loaded, so the call is aborted there and returns nothing at all.
\<close>

theorem process_without_model_aborts_counterexample:
  "process True (exampleOps kFloat) (exampleInference None) (\<lambda>t x. x)
     \<lparr>vec_x = 4, vec_y = 1, vec_z = 1\<rparr> \<lparr>vec_x = 4, vec_y = 1, vec_z = 1\<rparr>
     ''NCHW'' TypeFloat ''NCHW'' 2 0
   = Some Aborted"
  by code_simp

text \<open>
  C5, amended: if no model is loaded, then in a build with assertions compiled out
  \<^verbatim>\<open>process\<close> returns a null result without ever allocating an output buffer, having
  logged that no model is loaded (and one more line for each auxiliary module that is
  missing); no exception is raised. In a build that keeps assertions the assertion of
  line 43 aborts the call.
\<close>

theorem process_without_model:
  assumes "m_torchModule ti = None"
  shows "process False ops ti clampCast inputSize outputSize finalLayout modelOutputDataType
           modelOutputLayout inferencePatchSize inferencePatchOverlap
         = Some (Returned None
             (''TorchInference: Error no model loaded.''
              # log_error_if_null (m_inputNormalizationModule ti)
                  ''TorchInference: Error no normalization module present.''
              @ log_error_if_null (m_outputDenormalizationModule ti)
                  ''TorchInference: Error no denormalization module present.''))
         \<and> process True ops ti clampCast inputSize outputSize finalLayout modelOutputDataType
             modelOutputLayout inferencePatchSize inferencePatchOverlap
           = Some Aborted"
  using assms by (simp add: process_def log_error_if_null_def)

theorem process_without_model_witness:
  "m_torchModule (exampleInference None) = None
   \<and> process False (exampleOps kFloat) (exampleInference None) (\<lambda>t x. x)
       \<lparr>vec_x = 4, vec_y = 1, vec_z = 1\<rparr> \<lparr>vec_x = 4, vec_y = 1, vec_z = 1\<rparr>
       ''NCHW'' TypeFloat ''NCHW'' 2 0
     = Some (Returned None
         [''TorchInference: Error no model loaded.'',
          ''TorchInference: Error no normalization module present.'',
          ''TorchInference: Error no denormalization module present.''])"
  using process_without_model [of "exampleInference None" "exampleOps kFloat" "\<lambda>t x. x"
      "\<lparr>vec_x = 4, vec_y = 1, vec_z = 1\<rparr>" "\<lparr>vec_x = 4, vec_y = 1, vec_z = 1\<rparr>"
      "''NCHW''" TypeFloat "''NCHW''" 2 0]
  by (simp add: exampleInference_def log_error_if_null_def)

subsection \<open>The dispatch on the element type\<close>

lemma modelOutput_promotes:
  assumes "modelOutput assertsEnabled ops ti forward TypeHalf inputData p = Inr output"
  shows "dtype output = kFloat"
  using assms
  by (auto simp: modelOutput_def toKFloat_def split: sum.splits)

lemma processLoop_step:
  assumes "sv < numPixels" and "body (planStep numPixels ips ov sv) buf = Inr buf'"
  shows "processLoop body numPixels ips ov sv buf
         = processLoop body numPixels ips ov
             (sv + patchSizeValid (planStep numPixels ips ov sv)) buf'"
  using assms by (subst processLoop.simps) (simp add: Let_def)

text \<open>
  C9: let \<open>output\<close> be the model output of a patch after the promotion of lines 151 to
  155 (which happens exactly when the hint is \<^verbatim>\<open>TypeHalf\<close> and then leaves the element
  type float). If its runtime element type is one of int8, uint8, int16, int32, int64,
  float32, float64, the iteration is the copy for that element type. For every other
  element type the iteration leaves the buffer as it is and raises nothing (the body
  never writes to the log), and the loop goes on with the next cursor and the same buffer.
\<close>

theorem unsupported_dtype_skips_patch:
  assumes "modelOutput assertsEnabled ops ti forward modelOutputDataType inputData p
           = Inr output"
  shows "patchBody assertsEnabled ops ti forward clampCast outputSize finalLayout
           modelOutputDataType modelOutputLayout inputData p pDataOut
         = (if dtype output \<in> {kInt8, kUInt8, kInt16, kInt32, kInt64, kFloat, kDouble}
            then copyPatchToOutput (clampCast (dtype output)) (elems output) pDataOut
                   modelOutputLayout finalLayout outputSize
                   (startPixelValid p) (startPixel p) (patchSizeValid p)
            else Inr pDataOut)
         \<and> (modelOutputDataType = TypeHalf \<longrightarrow> dtype output = kFloat)
         \<and> (sv < numPixels \<and> p = planStep numPixels ips ov sv
              \<and> dtype output \<notin> {kInt8, kUInt8, kInt16, kInt32, kInt64, kFloat, kDouble}
            \<longrightarrow> processLoop
                  (patchBody assertsEnabled ops ti forward clampCast outputSize finalLayout
                     modelOutputDataType modelOutputLayout inputData)
                  numPixels ips ov sv pDataOut
                = processLoop
                    (patchBody assertsEnabled ops ti forward clampCast outputSize finalLayout
                       modelOutputDataType modelOutputLayout inputData)
                    numPixels ips ov (sv + patchSizeValid p) pDataOut)"
proof -
  have body: "patchBody assertsEnabled ops ti forward clampCast outputSize finalLayout
           modelOutputDataType modelOutputLayout inputData p pDataOut
         = (if dtype output \<in> {kInt8, kUInt8, kInt16, kInt32, kInt64, kFloat, kDouble}
            then copyPatchToOutput (clampCast (dtype output)) (elems output) pDataOut
                   modelOutputLayout finalLayout outputSize
                   (startPixelValid p) (startPixel p) (patchSizeValid p)
            else Inr pDataOut)"
    using assms by (simp add: patchBody_def dispatchCopy_def)
  have half: "modelOutputDataType = TypeHalf \<longrightarrow> dtype output = kFloat"
  proof
    assume h: "modelOutputDataType = TypeHalf"
    from assms have "modelOutput assertsEnabled ops ti forward TypeHalf inputData p = Inr output"
      by (simp add: h)
    then show "dtype output = kFloat" by (rule modelOutput_promotes)
  qed
  have "processLoop
          (patchBody assertsEnabled ops ti forward clampCast outputSize finalLayout
             modelOutputDataType modelOutputLayout inputData)
          numPixels ips ov sv pDataOut
        = processLoop
            (patchBody assertsEnabled ops ti forward clampCast outputSize finalLayout
               modelOutputDataType modelOutputLayout inputData)
            numPixels ips ov (sv + patchSizeValid p) pDataOut"
    if "sv < numPixels" and "p = planStep numPixels ips ov sv"
      and "dtype output \<notin> {kInt8, kUInt8, kInt16, kInt32, kInt64, kFloat, kDouble}"
  proof -
    from body that(3) have "patchBody assertsEnabled ops ti forward clampCast outputSize
        finalLayout modelOutputDataType modelOutputLayout inputData
        (planStep numPixels ips ov sv) pDataOut = Inr pDataOut"
      by (simp add: that(2))
    from processLoop_step [of sv numPixels
        "patchBody assertsEnabled ops ti forward clampCast outputSize finalLayout
           modelOutputDataType modelOutputLayout inputData" ips ov pDataOut pDataOut,
        OF that(1) this]
    show ?thesis by (simp add: that(2))
  qed
  with body half show ?thesis by blast
qed

theorem unsupported_dtype_skips_patch_witness:
  "modelOutput True (exampleOps kBool) (exampleInference (Some Inr)) Inr TypeFloat 0
     (planStep 4 2 0 0)
   = Inr \<lparr>dtype = kBool, is_hip = False, elems = [[[[7, 8]]]]\<rparr>
   \<and> patchBody True (exampleOps kBool) (exampleInference (Some Inr)) Inr (\<lambda>t x. x)
       \<lparr>vec_x = 4, vec_y = 1, vec_z = 1\<rparr> ''NCHW'' TypeFloat ''NCHW'' 0 (planStep 4 2 0 0)
       [None, None, None, None]
     = Inr [None, None, None, None]
   \<and> processLoop
       (patchBody True (exampleOps kBool) (exampleInference (Some Inr)) Inr (\<lambda>t x. x)
          \<lparr>vec_x = 4, vec_y = 1, vec_z = 1\<rparr> ''NCHW'' TypeFloat ''NCHW'' 0)
       4 2 0 0 [None, None, None, None]
     = processLoop
         (patchBody True (exampleOps kBool) (exampleInference (Some Inr)) Inr (\<lambda>t x. x)
            \<lparr>vec_x = 4, vec_y = 1, vec_z = 1\<rparr> ''NCHW'' TypeFloat ''NCHW'' 0)
         4 2 0 2 [None, None, None, None]
   \<and> process True (exampleOps kBool) (exampleInference (Some Inr)) (\<lambda>t x. x)
       \<lparr>vec_x = 4, vec_y = 1, vec_z = 1\<rparr> \<lparr>vec_x = 4, vec_y = 1, vec_z = 1\<rparr>
       ''NCHW'' TypeFloat ''NCHW'' 2 0
     = Some (Returned (Some [None, None, None, None]) [])"
proof -
  have whole: "process True (exampleOps kBool) (exampleInference (Some Inr)) (\<lambda>t x. x)
       \<lparr>vec_x = 4, vec_y = 1, vec_z = 1\<rparr> \<lparr>vec_x = 4, vec_y = 1, vec_z = 1\<rparr>
       ''NCHW'' TypeFloat ''NCHW'' 2 0
     = Some (Returned (Some [None, None, None, None]) [])"
    by code_simp
  have m: "modelOutput True (exampleOps kBool) (exampleInference (Some Inr)) Inr TypeFloat 0
     (planStep 4 2 0 0)
   = Inr \<lparr>dtype = kBool, is_hip = False, elems = [[[[7, 8]]]]\<rparr>"
    by (simp add: modelOutput_def exampleOps_def exampleInference_def called_def assertion_def)
  have v: "patchSizeValid (planStep 4 2 0 0) = 2"
    by (simp add: planStep_def)
  from unsupported_dtype_skips_patch [OF m, of "\<lambda>t x. x"
      "\<lparr>vec_x = 4, vec_y = 1, vec_z = 1\<rparr>" "''NCHW''" "''NCHW''" "[None, None, None, None]"
      0 4 2 0] m v whole
  show ?thesis by simp
qed

section \<open>The region copy\<close>

subsection \<open>The layout permutation and the narrowed axis\<close>

lemma indexOf_nth: "distinct xs \<Longrightarrow> i < length xs \<Longrightarrow> indexOf xs (xs ! i) = i"
proof (induction xs arbitrary: i)
  case Nil
  then show ?case by simp
next
  case (Cons d ds)
  show ?case
  proof (cases i)
    case 0
    then show ?thesis by simp
  next
    case (Suc j)
    with Cons.prems have "j < length ds" and "distinct ds" and "ds ! j \<in> set ds" and "d \<notin> set ds"
      by simp_all
    then have "d \<noteq> ds ! j" by auto
    with Cons.IH [OF \<open>distinct ds\<close> \<open>j < length ds\<close>] Suc show ?thesis by simp
  qed
qed

lemma indexOf_member: "c \<in> set xs \<Longrightarrow> indexOf xs c < length xs \<and> xs ! indexOf xs c = c"
  by (induction xs) auto

text \<open>
  The permutation of two layouts of four tokens holds every index once; in particular
  exactly one of its four positions holds 3.
\<close>

lemma layoutPermutation_three:
  assumes lp: "layoutPermutation currentLayout outLayout = Some permutation"
    and four: "length currentLayout = 4"
  shows "length permutation = 4" and "\<exists>!i. i < 4 \<and> permutation ! i = 3"
proof -
  from lp have len: "length outLayout = length currentLayout" and dc: "distinct currentLayout"
    and sets: "set currentLayout = set outLayout"
    and perm: "permutation = map (\<lambda>c. int (indexOf currentLayout c)) outLayout"
    by (auto simp: layoutPermutation_def split: if_splits)
  from perm len four show "length permutation = 4" by simp
  have "card (set outLayout) = length outLayout"
    using distinct_card [OF dc] sets len by simp
  then have dout: "distinct outLayout" by (rule card_distinct)
  have at: "permutation ! i = int (indexOf currentLayout (outLayout ! i))" if "i < 4" for i
    using that perm len four by simp
  have "currentLayout ! 3 \<in> set outLayout" using four sets [symmetric] by simp
  then obtain i where i: "i < length outLayout" "outLayout ! i = currentLayout ! 3"
    by (auto simp: in_set_conv_nth)
  have "indexOf currentLayout (currentLayout ! 3) = 3"
    using indexOf_nth [OF dc, of 3] four by simp
  with i at [of i] len four have ex: "i < 4 \<and> permutation ! i = 3" by simp
  have "j = i" if "j < 4" and "permutation ! j = 3" for j
  proof -
    from that at [of j] have "indexOf currentLayout (outLayout ! j) = 3" by simp
    moreover have "outLayout ! j \<in> set currentLayout"
      using that(1) len four sets by simp
    ultimately have "outLayout ! j = currentLayout ! 3"
      using indexOf_member [of "outLayout ! j" currentLayout] by auto
    with i(2) have "outLayout ! j = outLayout ! i" by simp
    with dout that(1) i(1) len four show ?thesis
      by (simp add: nth_eq_iff_index_eq)
  qed
  with ex show "\<exists>!i. i < 4 \<and> permutation ! i = 3" by blast
qed

text \<open>
  C7, as the spec states it, fails when the permutation holds 3 at position 0: the chain
  of comparisons of lines 248 to 265 looks at the positions 1, 2 and 3 only and has no
  final \<^verbatim>\<open>else\<close>. With the model output layout \<^verbatim>\<open>CDHW\<close> and the final layout \<^verbatim>\<open>WCDH\<close> the
  permutation is \<open>[3, 0, 1, 2]\<close>, and all three axes keep their full extent although a
  valid sub-window \<open>[1, 3)\<close> was asked for.
\<close>

theorem narrowing_none_counterexample:
  "layoutPermutation ''CDHW'' ''WCDH'' = Some [3, 0, 1, 2]
   \<and> patchRanges ''CDHW'' ''WCDH'' \<lparr>vec_x = 4, vec_y = 4, vec_z = 4\<rparr> 1 0 2
       = Some \<lparr>outSliceStart = 0, outSliceEnd = 4, outSliceOffset = 0,
               outLineStart = 0, outLineEnd = 4, outLineOffset = 0,
               outPixelStart = 0, outPixelEnd = 4, outPixelOffset = 0\<rparr>"
  by code_simp

text \<open>
  C7, amended: for layouts of four tokens the permutation computed from
  \<open>(modelOutputLayout, finalLayout)\<close> holds 3 at exactly one position. If that position is
  1, 2 or 3, exactly the slice, line or pixel axis, respectively, has its range set to
  \<open>[startPixelValid, startPixelValid + patchSizeValid)\<close> and its offset set to
  \<open>startPixel\<close>, and the other two axes keep the full extent and the offset 0. If that
  position is 0, no axis is narrowed: all three keep the full extent and the offset 0.
\<close>

theorem narrowing_by_permutation:
  assumes lp: "layoutPermutation modelOutputLayout finalLayout = Some permutation"
    and four: "length modelOutputLayout = 4"
  shows "(\<exists>!i. i < 4 \<and> permutation ! i = 3)
    \<and> (\<exists>r. patchRanges modelOutputLayout finalLayout outputSize sv sp psv = Some r
          \<and> (permutation ! 1 = 3 \<longrightarrow> r = (fullRanges outputSize)
                \<lparr>outSliceStart := sv, outSliceEnd := sv + psv, outSliceOffset := sp\<rparr>)
          \<and> (permutation ! 2 = 3 \<longrightarrow> r = (fullRanges outputSize)
                \<lparr>outLineStart := sv, outLineEnd := sv + psv, outLineOffset := sp\<rparr>)
          \<and> (permutation ! 3 = 3 \<longrightarrow> r = (fullRanges outputSize)
                \<lparr>outPixelStart := sv, outPixelEnd := sv + psv, outPixelOffset := sp\<rparr>)
          \<and> (permutation ! 0 = 3 \<longrightarrow> r = fullRanges outputSize))"
proof -
  from layoutPermutation_three [OF lp four]
  have len: "length permutation = 4" and one: "\<exists>!i. i < 4 \<and> permutation ! i = 3" .
  have rd: "readAt permutation 1 = Some (permutation ! 1)"
    "readAt permutation 2 = Some (permutation ! 2)"
    "readAt permutation 3 = Some (permutation ! 3)"
    using len by (simp_all add: readAt_def)
  from one have excl: "permutation ! i = 3 \<Longrightarrow> permutation ! j = 3 \<Longrightarrow> i < 4 \<Longrightarrow> j < 4
      \<Longrightarrow> i = j" for i j
    by blast
  have e01: "permutation ! 0 = 3 \<Longrightarrow> permutation ! 1 \<noteq> 3"
    and e02: "permutation ! 0 = 3 \<Longrightarrow> permutation ! 2 \<noteq> 3"
    and e03: "permutation ! 0 = 3 \<Longrightarrow> permutation ! 3 \<noteq> 3"
    and e12: "permutation ! 1 = 3 \<Longrightarrow> permutation ! 2 \<noteq> 3"
    and e13: "permutation ! 1 = 3 \<Longrightarrow> permutation ! 3 \<noteq> 3"
    and e23: "permutation ! 2 = 3 \<Longrightarrow> permutation ! 3 \<noteq> 3"
    using excl [of 0 1] excl [of 0 2] excl [of 0 3] excl [of 1 2] excl [of 1 3] excl [of 2 3]
    by auto
  have "\<exists>r. patchRanges modelOutputLayout finalLayout outputSize sv sp psv = Some r
          \<and> (permutation ! 1 = 3 \<longrightarrow> r = (fullRanges outputSize)
                \<lparr>outSliceStart := sv, outSliceEnd := sv + psv, outSliceOffset := sp\<rparr>)
          \<and> (permutation ! 2 = 3 \<longrightarrow> r = (fullRanges outputSize)
                \<lparr>outLineStart := sv, outLineEnd := sv + psv, outLineOffset := sp\<rparr>)
          \<and> (permutation ! 3 = 3 \<longrightarrow> r = (fullRanges outputSize)
                \<lparr>outPixelStart := sv, outPixelEnd := sv + psv, outPixelOffset := sp\<rparr>)
          \<and> (permutation ! 0 = 3 \<longrightarrow> r = fullRanges outputSize)"
    using e01 e02 e03 e12 e13 e23
    by (auto simp: patchRanges_def lp narrowRanges_def rd)
  with one show ?thesis by simp
qed

theorem narrowing_by_permutation_witness:
  "layoutPermutation ''NCHW'' ''NCWH'' = Some [0, 1, 3, 2]
   \<and> length ''NCHW'' = 4
   \<and> patchRanges ''NCHW'' ''NCWH'' \<lparr>vec_x = 4, vec_y = 4, vec_z = 4\<rparr> 1 0 2
       = Some ((fullRanges \<lparr>vec_x = 4, vec_y = 4, vec_z = 4\<rparr>)
               \<lparr>outLineStart := 1, outLineEnd := 1 + 2, outLineOffset := 0\<rparr>)"
proof -
  have lp: "layoutPermutation ''NCHW'' ''NCWH'' = Some [0, 1, 3, 2]"
    by code_simp
  have four: "length ''NCHW'' = 4" by simp
  from narrowing_by_permutation [OF lp four, of "\<lparr>vec_x = 4, vec_y = 4, vec_z = 4\<rparr>" 1 0 2]
  have "patchRanges ''NCHW'' ''NCWH'' \<lparr>vec_x = 4, vec_y = 4, vec_z = 4\<rparr> 1 0 2
       = Some ((fullRanges \<lparr>vec_x = 4, vec_y = 4, vec_z = 4\<rparr>)
               \<lparr>outLineStart := 1, outLineEnd := 1 + 2, outLineOffset := 0\<rparr>)"
    by auto
  with lp four show ?thesis by simp
qed

subsection \<open>Row-major addresses\<close>

lemma rowMajor_less:
  fixes s l p X Y Z :: nat
  assumes "s < Z" and "l < Y" and "p < X"
  shows "s * Y * X + l * X + p < X * Y * Z"
proof -
  have "l * X + p < (l + 1) * X" using assms(3) by simp
  also have "(l + 1) * X \<le> Y * X" using assms(2) by (intro mult_le_mono1) simp
  finally have row: "l * X + p < Y * X" .
  then have "s * (Y * X) + (l * X + p) < (s + 1) * (Y * X)" by simp
  also have "(s + 1) * (Y * X) \<le> Z * (Y * X)" using assms(1) by (intro mult_le_mono1) simp
  finally show ?thesis by (simp add: ac_simps)
qed

lemma rowMajor_decode:
  fixes s l p X Y :: nat
  assumes "l < Y" and "p < X"
  shows "(s * Y * X + l * X + p) div (Y * X) = s"
    and "((s * Y * X + l * X + p) mod (Y * X)) div X = l"
    and "(s * Y * X + l * X + p) mod X = p"
proof -
  have "l * X + p < (l + 1) * X" using assms(2) by simp
  also have "(l + 1) * X \<le> Y * X" using assms(1) by (intro mult_le_mono1) simp
  finally have row: "l * X + p < Y * X" .
  have eq: "s * Y * X + l * X + p = s * (Y * X) + (l * X + p)" by (simp add: ac_simps)
  have X: "0 < X" and Y: "0 < Y" using assms by simp_all
  have "(s * (Y * X) + (l * X + p)) div (Y * X) = s + (l * X + p) div (Y * X)"
    using X Y by (intro div_mult_self3) simp
  with row show "(s * Y * X + l * X + p) div (Y * X) = s"
    unfolding eq by simp
  have "(s * (Y * X) + (l * X + p)) mod (Y * X) = (l * X + p) mod (Y * X)"
    by (rule mod_mult_self3)
  with row have m: "(s * Y * X + l * X + p) mod (Y * X) = l * X + p"
    unfolding eq by simp
  have "(l * X + p) div X = l + p div X"
    using X by (intro div_mult_self3) simp
  with assms(2) show "((s * Y * X + l * X + p) mod (Y * X)) div X = l"
    unfolding m by simp
  have "(s * Y * X + l * X + p) = (s * Y + l) * X + p" by (simp add: algebra_simps)
  with assms(2) show "(s * Y * X + l * X + p) mod X = p" by simp
qed

lemma unat_mult_exact:
  fixes a b :: "'a::len word"
  shows "unat a * unat b < 2 ^ LENGTH('a) \<Longrightarrow> unat (a * b) = unat a * unat b"
  by (simp only: unat_mult_lem)

lemma unat_add_exact:
  fixes a b :: "'a::len word"
  shows "unat a + unat b < 2 ^ LENGTH('a) \<Longrightarrow> unat (a + b) = unat a + unat b"
  by (simp only: unat_add_lem)

lemma outputIndex_unat:
  assumes s: "unat s < unat (vec_z os)" and l: "unat l < unat (vec_y os)"
    and p: "unat p < unat (vec_x os)"
    and rep: "unat (vec_x os) * unat (vec_y os) * unat (vec_z os) < 2 ^ 64"
  shows "unat (outputIndex os s l p)
         = unat s * unat (vec_y os) * unat (vec_x os) + unat l * unat (vec_x os) + unat p"
proof -
  define X Y Z where "X = unat (vec_x os)" and "Y = unat (vec_y os)" and "Z = unat (vec_z os)"
  define n where "n = unat s * Y * X + unat l * X + unat p"
  have "n < X * Y * Z"
    unfolding n_def using s l p by (intro rowMajor_less) (simp_all add: X_def Y_def Z_def)
  with rep have n: "n < 2 ^ LENGTH(64)" by (simp add: X_def Y_def Z_def)
  have Xpos: "1 \<le> X" using p by (simp add: X_def)
  have "unat s * Y \<le> unat s * Y * X" using Xpos by simp
  also have "\<dots> \<le> n" by (simp add: n_def)
  finally have "unat s * unat (vec_y os) < 2 ^ LENGTH(64)" using n by (simp add: Y_def)
  from unat_mult_exact [OF this] have a: "unat (s * vec_y os) = unat s * Y"
    by (simp add: Y_def)
  have "unat s * Y * X \<le> n" by (simp add: n_def)
  with n have "unat (s * vec_y os) * unat (vec_x os) < 2 ^ LENGTH(64)" by (simp add: a X_def)
  from unat_mult_exact [OF this] have b: "unat (s * vec_y os * vec_x os) = unat s * Y * X"
    by (simp add: a X_def)
  have "unat l * X \<le> n" by (simp add: n_def)
  with n have "unat l * unat (vec_x os) < 2 ^ LENGTH(64)" by (simp add: X_def)
  from unat_mult_exact [OF this] have c: "unat (l * vec_x os) = unat l * X"
    by (simp add: X_def)
  have "unat s * Y * X + unat l * X \<le> n" by (simp add: n_def)
  with n have "unat (s * vec_y os * vec_x os) + unat (l * vec_x os) < 2 ^ LENGTH(64)"
    by (simp add: b c)
  from unat_add_exact [OF this]
  have d: "unat (s * vec_y os * vec_x os + l * vec_x os) = unat s * Y * X + unat l * X"
    by (simp add: b c)
  from n have "unat (s * vec_y os * vec_x os + l * vec_x os) + unat p < 2 ^ LENGTH(64)"
    by (simp add: d n_def)
  from unat_add_exact [OF this]
  have "unat (s * vec_y os * vec_x os + l * vec_x os + p) = n"
    by (simp add: d n_def)
  then show ?thesis by (simp add: outputIndex_def n_def X_def Y_def)
qed

subsection \<open>Buffers that differ on a set of addresses\<close>

lemma updatedOn_empty: "updatedOn V {} b b"
  by (simp add: updatedOn_def)

lemma updatedOn_trans:
  "updatedOn V A b0 b1 \<Longrightarrow> updatedOn V B b1 b2 \<Longrightarrow> updatedOn V (A \<union> B) b0 b2"
  by (auto simp: updatedOn_def)

lemma updatedOn_single:
  "a < length b \<Longrightarrow> V a = x \<Longrightarrow> updatedOn V {a} b (b[a := x])"
  by (auto simp: updatedOn_def)

lemma updatedOn_length: "updatedOn V A b0 b \<Longrightarrow> length b = length b0"
  by (simp add: updatedOn_def)

lemma word_range_split:
  fixes i e :: size_t
  assumes "i < e"
  shows "{j. i \<le> j \<and> j < e} = insert i {j. i + 1 \<le> j \<and> j < e}"
proof -
  from forLoop_measure(1) [OF assms] have "i \<le> j \<longleftrightarrow> j = i \<or> i + 1 \<le> j" for j
    by (auto simp: word_le_nat_alt word_unat_eq_iff)
  with assms show ?thesis by auto
qed

lemma forLoop_updatedOn:
  fixes V :: "nat \<Rightarrow> 'c" and st :: "'c list"
  assumes "\<And>j b. i \<le> j \<Longrightarrow> j < e \<Longrightarrow> length b = n
             \<Longrightarrow> \<exists>b'. body j b = Inr b' \<and> updatedOn V (A j) b b'"
    and "length st = n"
  shows "\<exists>b'. forLoop i e body st = Inr b'
            \<and> updatedOn V (\<Union>j\<in>{j. i \<le> j \<and> j < e}. A j) st b'"
  using assms
proof (induction i e body st rule: forLoop.induct)
  case (1 i e body st)
  show ?case
  proof (cases "i < e")
    case False
    then have "(\<Union>j\<in>{j. i \<le> j \<and> j < e}. A j) = {}" by auto
    then have "updatedOn V (\<Union>j\<in>{j. i \<le> j \<and> j < e}. A j) st st"
      by (simp only: updatedOn_empty)
    moreover from False have "forLoop i e body st = Inr st"
      by (simp add: forLoop.simps [of i e])
    ultimately show ?thesis by blast
  next
    case True
    from "1.prems"(1) [of i st] True "1.prems"(2) obtain b1 where
      b1: "body i st = Inr b1" "updatedOn V (A i) st b1"
      by auto
    from updatedOn_length [OF b1(2)] "1.prems"(2) have len1: "length b1 = n" by simp
    have up: "i \<le> j" if "i + 1 \<le> j" for j
      using that forLoop_measure(1) [OF True] by (simp add: word_le_nat_alt)
    have "\<exists>b'. forLoop (i + 1) e body b1 = Inr b'
            \<and> updatedOn V (\<Union>j\<in>{j. i + 1 \<le> j \<and> j < e}. A j) b1 b'"
    proof (rule "1.IH" [OF True b1(1) _ len1])
      fix j and b :: "'c list"
      assume "i + 1 \<le> j" and "j < e" and "length b = n"
      with "1.prems"(1) [of j b] up [of j]
      show "\<exists>b'. body j b = Inr b' \<and> updatedOn V (A j) b b'" by simp
    qed
    then obtain b' where b': "forLoop (i + 1) e body b1 = Inr b'"
      "updatedOn V (\<Union>j\<in>{j. i + 1 \<le> j \<and> j < e}. A j) b1 b'"
      by blast
    have "forLoop i e body st = Inr b'"
      using True b1(1) b'(1) by (simp add: forLoop.simps [of i e])
    moreover have "updatedOn V (\<Union>j\<in>{j. i \<le> j \<and> j < e}. A j) st b'"
      using updatedOn_trans [OF b1(2) b'(2)] by (simp add: word_range_split [OF True])
    ultimately show ?thesis by blast
  qed
qed

subsection \<open>What one call writes\<close>

lemma intended_at:
  assumes "unat l < unat (vec_y os)" and "unat p < unat (vec_x os)"
    and "a = unat s * unat (vec_y os) * unat (vec_x os) + unat l * unat (vec_x os) + unat p"
  shows "intended cc out os r a
         = map_option cc (accessorRead out (s - outSliceOffset r) (l - outLineOffset r)
                            (p - outPixelOffset r))"
  using rowMajor_decode [OF assms(1,2), of "unat s"]
  by (simp add: intended_def assms(3))

lemma writeSample_updatedOn:
  assumes size: "length pDataOut = unat (vec_x os) * unat (vec_y os) * unat (vec_z os)"
    and rep: "length pDataOut < 2 ^ 64"
    and within: "outSliceEnd r \<le> vec_z os" "outLineEnd r \<le> vec_y os"
      "outPixelEnd r \<le> vec_x os"
    and reads: "\<forall>s l p. inRanges r s l p \<longrightarrow>
        accessorRead out (s - outSliceOffset r) (l - outLineOffset r) (p - outPixelOffset r)
          \<noteq> None"
    and inr: "inRanges r s l p"
    and len: "length b = length pDataOut"
  shows "unat (outputIndex os s l p)
           = unat s * unat (vec_y os) * unat (vec_x os) + unat l * unat (vec_x os) + unat p"
    and "unat (outputIndex os s l p) < length pDataOut"
    and "intended cc out os r (unat (outputIndex os s l p))
           = map_option cc (accessorRead out (s - outSliceOffset r) (l - outLineOffset r)
                              (p - outPixelOffset r))"
    and "\<exists>b'. writeSample cc out os r s l p b = Inr b'
           \<and> updatedOn (intended cc out os r) {unat (outputIndex os s l p)} b b'"
proof -
  from inr within have s: "unat s < unat (vec_z os)" and l: "unat l < unat (vec_y os)"
    and p: "unat p < unat (vec_x os)"
    by (auto simp: inRanges_def word_le_nat_alt word_less_nat_alt)
  from size rep have rep': "unat (vec_x os) * unat (vec_y os) * unat (vec_z os) < 2 ^ 64"
    by simp
  show addr: "unat (outputIndex os s l p)
           = unat s * unat (vec_y os) * unat (vec_x os) + unat l * unat (vec_x os) + unat p"
    by (rule outputIndex_unat [OF s l p rep'])
  show lt: "unat (outputIndex os s l p) < length pDataOut"
    unfolding addr size by (rule rowMajor_less [OF s l p])
  show val: "intended cc out os r (unat (outputIndex os s l p))
           = map_option cc (accessorRead out (s - outSliceOffset r) (l - outLineOffset r)
                              (p - outPixelOffset r))"
    by (rule intended_at [OF l p addr])
  from reads inr have "accessorRead out (s - outSliceOffset r)
      (l - outLineOffset r) (p - outPixelOffset r) \<noteq> None"
    by blast
  then obtain v where v: "accessorRead out (s - outSliceOffset r)
      (l - outLineOffset r) (p - outPixelOffset r) = Some v"
    by blast
  have "writeSample cc out os r s l p b = Inr (b[unat (outputIndex os s l p) := Some (cc v)])"
    using lt len by (simp add: writeSample_def v)
  moreover have "updatedOn (intended cc out os r) {unat (outputIndex os s l p)} b
      (b[unat (outputIndex os s l p) := Some (cc v)])"
    using lt len by (intro updatedOn_single) (simp_all add: val v)
  ultimately show "\<exists>b'. writeSample cc out os r s l p b = Inr b'
           \<and> updatedOn (intended cc out os r) {unat (outputIndex os s l p)} b b'"
    by blast
qed

lemma copyRegion_updatedOn:
  fixes pDataOut :: "'o Container"
  assumes size: "length pDataOut = unat (vec_x os) * unat (vec_y os) * unat (vec_z os)"
    and rep: "length pDataOut < 2 ^ 64"
    and within: "outSliceEnd r \<le> vec_z os" "outLineEnd r \<le> vec_y os"
      "outPixelEnd r \<le> vec_x os"
    and reads: "\<forall>s l p. inRanges r s l p \<longrightarrow>
        accessorRead out (s - outSliceOffset r) (l - outLineOffset r) (p - outPixelOffset r)
          \<noteq> None"
  shows "\<exists>buf. copyRegion cc out os r pDataOut = Inr buf
           \<and> updatedOn (intended cc out os r)
                {a. \<exists>s l p. inRanges r s l p \<and> a = unat (outputIndex os s l p)} pDataOut buf"
proof -
  define n where "n = length pDataOut"
  define V where "V = intended cc out os r"
  define pixels where "pixels s l = (\<Union>p\<in>{p. outPixelStart r \<le> p \<and> p < outPixelEnd r}.
      {unat (outputIndex os s l p)})" for s l
  define lines where "lines s = (\<Union>l\<in>{l. outLineStart r \<le> l \<and> l < outLineEnd r}.
      pixels s l)" for s
  have pixelLoop: "\<exists>b'. forLoop (outPixelStart r) (outPixelEnd r)
          (\<lambda>p. writeSample cc out os r s l p) b = Inr b' \<and> updatedOn V (pixels s l) b b'"
    if "outSliceStart r \<le> s" "s < outSliceEnd r" "outLineStart r \<le> l" "l < outLineEnd r"
      and "length b = n" for s l and b :: "'o Container"
    unfolding pixels_def
  proof (rule forLoop_updatedOn [where n = n])
    show "length b = n" by (rule that(5))
  next
    fix p and c :: "'o Container"
    assume "outPixelStart r \<le> p" and "p < outPixelEnd r" and "length c = n"
    with that have "inRanges r s l p" and "length c = length pDataOut"
      by (simp_all add: inRanges_def n_def)
    from writeSample_updatedOn(4) [OF size rep within reads this]
    show "\<exists>b'. writeSample cc out os r s l p c = Inr b'
        \<and> updatedOn V {unat (outputIndex os s l p)} c b'"
      by (simp add: V_def)
  qed
  have lineLoop: "\<exists>b'. forLoop (outLineStart r) (outLineEnd r)
          (\<lambda>l. forLoop (outPixelStart r) (outPixelEnd r)
                  (\<lambda>p. writeSample cc out os r s l p)) b = Inr b'
        \<and> updatedOn V (lines s) b b'"
    if "outSliceStart r \<le> s" "s < outSliceEnd r" and "length b = n"
    for s and b :: "'o Container"
    unfolding lines_def
  proof (rule forLoop_updatedOn [where n = n])
    show "length b = n" by (rule that(3))
  next
    fix l and c :: "'o Container"
    assume "outLineStart r \<le> l" and "l < outLineEnd r" and "length c = n"
    from pixelLoop [OF that(1,2) this]
    show "\<exists>b'. forLoop (outPixelStart r) (outPixelEnd r)
          (\<lambda>p. writeSample cc out os r s l p) c = Inr b' \<and> updatedOn V (pixels s l) c b'" .
  qed
  have "\<exists>b'. forLoop (outSliceStart r) (outSliceEnd r)
          (\<lambda>s. forLoop (outLineStart r) (outLineEnd r)
             (\<lambda>l. forLoop (outPixelStart r) (outPixelEnd r)
                     (\<lambda>p. writeSample cc out os r s l p))) pDataOut = Inr b'
        \<and> updatedOn V (\<Union>s\<in>{s. outSliceStart r \<le> s \<and> s < outSliceEnd r}. lines s)
             pDataOut b'"
  proof (rule forLoop_updatedOn [where n = n])
    show "length pDataOut = n" by (simp add: n_def)
  next
    fix s and c :: "'o Container"
    assume "outSliceStart r \<le> s" and "s < outSliceEnd r" and "length c = n"
    from lineLoop [OF this]
    show "\<exists>b'. forLoop (outLineStart r) (outLineEnd r)
          (\<lambda>l. forLoop (outPixelStart r) (outPixelEnd r)
                  (\<lambda>p. writeSample cc out os r s l p)) c = Inr b'
        \<and> updatedOn V (lines s) c b'" .
  qed
  moreover have "(\<Union>s\<in>{s. outSliceStart r \<le> s \<and> s < outSliceEnd r}. lines s)
      = {a. \<exists>s l p. inRanges r s l p \<and> a = unat (outputIndex os s l p)}"
    by (auto simp: lines_def pixels_def inRanges_def)
  ultimately show ?thesis by (simp add: copyRegion_def V_def)
qed

text \<open>
  C8: let \<open>r\<close> be the ranges of a call of \<^verbatim>\<open>copyPatchToOutput\<close>, let the buffer have
  \<open>outputSize.x * outputSize.y * outputSize.z\<close> elements, let the ranges end inside the
  extents of the output, and let the tensor hold a sample at (coordinate - offset) for
  every coordinate in the ranges. Then the call completes, the buffer keeps its length, and
  for every coordinate \<open>(s, l, p)\<close> in the ranges the element at the row-major address
  \<open>s * outputSize.y * outputSize.x + l * outputSize.x + p\<close> (which the \<^verbatim>\<open>size_t\<close>
  expression computes without wrapping) is the converted sample read at
  \<open>(s - outSliceOffset, l - outLineOffset, p - outPixelOffset)\<close>; every element whose
  address is not the address of a coordinate in the ranges is what it was before the call.
\<close>

theorem copyPatchToOutput_region:
  fixes pDataOut :: "'o Container"
  assumes ranges: "patchRanges modelOutputLayout finalLayout outputSize sv sp psv = Some r"
    and size: "length pDataOut
        = unat (vec_x outputSize) * unat (vec_y outputSize) * unat (vec_z outputSize)"
    and rep: "length pDataOut < 2 ^ 64"
    and within: "outSliceEnd r \<le> vec_z outputSize" "outLineEnd r \<le> vec_y outputSize"
      "outPixelEnd r \<le> vec_x outputSize"
    and reads: "\<forall>s l p. inRanges r s l p \<longrightarrow>
        accessorRead outAccessor (s - outSliceOffset r) (l - outLineOffset r)
          (p - outPixelOffset r) \<noteq> None"
  shows "\<exists>buf. copyPatchToOutput clampCast outAccessor pDataOut modelOutputLayout finalLayout
                 outputSize sv sp psv = Inr buf
           \<and> length buf = length pDataOut
           \<and> (\<forall>s l p. inRanges r s l p \<longrightarrow>
                 unat (outputIndex outputSize s l p)
                   = unat s * unat (vec_y outputSize) * unat (vec_x outputSize)
                     + unat l * unat (vec_x outputSize) + unat p
                 \<and> unat (outputIndex outputSize s l p) < length buf
                 \<and> (\<exists>v. accessorRead outAccessor (s - outSliceOffset r)
                            (l - outLineOffset r) (p - outPixelOffset r) = Some v
                        \<and> buf ! unat (outputIndex outputSize s l p) = Some (clampCast v)))
           \<and> (\<forall>a<length buf.
                 (\<forall>s l p. inRanges r s l p \<longrightarrow> unat (outputIndex outputSize s l p) \<noteq> a)
                 \<longrightarrow> buf ! a = pDataOut ! a)"
proof -
  from copyRegion_updatedOn [OF size rep within reads, of clampCast] obtain buf where
    run: "copyRegion clampCast outAccessor outputSize r pDataOut = Inr buf"
    and upd: "updatedOn (intended clampCast outAccessor outputSize r)
        {a. \<exists>s l p. inRanges r s l p \<and> a = unat (outputIndex outputSize s l p)} pDataOut buf"
    by blast
  from upd have len: "length buf = length pDataOut"
    and at: "\<And>a. a < length pDataOut \<Longrightarrow> buf ! a =
        (if a \<in> {a. \<exists>s l p. inRanges r s l p \<and> a = unat (outputIndex outputSize s l p)}
         then intended clampCast outAccessor outputSize r a else pDataOut ! a)"
    by (simp_all add: updatedOn_def)
  have call: "copyPatchToOutput clampCast outAccessor pDataOut modelOutputLayout finalLayout
      outputSize sv sp psv = Inr buf"
    by (simp add: copyPatchToOutput_def ranges run)
  have written: "unat (outputIndex outputSize s l p)
        = unat s * unat (vec_y outputSize) * unat (vec_x outputSize)
          + unat l * unat (vec_x outputSize) + unat p
      \<and> unat (outputIndex outputSize s l p) < length buf
      \<and> (\<exists>v. accessorRead outAccessor (s - outSliceOffset r)
                 (l - outLineOffset r) (p - outPixelOffset r) = Some v
             \<and> buf ! unat (outputIndex outputSize s l p) = Some (clampCast v))"
    if inr: "inRanges r s l p" for s l p
  proof -
    note facts = writeSample_updatedOn(1,2,3) [OF size rep within reads inr refl]
    from reads inr have "accessorRead outAccessor (s - outSliceOffset r)
        (l - outLineOffset r) (p - outPixelOffset r) \<noteq> None"
      by blast
    then obtain v where v: "accessorRead outAccessor (s - outSliceOffset r)
        (l - outLineOffset r) (p - outPixelOffset r) = Some v"
      by blast
    from at [OF facts(2)] inr
    have "buf ! unat (outputIndex outputSize s l p)
        = intended clampCast outAccessor outputSize r (unat (outputIndex outputSize s l p))"
      by auto
    with facts(3) v have "buf ! unat (outputIndex outputSize s l p) = Some (clampCast v)"
      by simp
    with facts(1,2) v len show ?thesis by simp
  qed
  have frame: "buf ! a = pDataOut ! a"
    if "a < length buf"
      and "\<forall>s l p. inRanges r s l p \<longrightarrow> unat (outputIndex outputSize s l p) \<noteq> a" for a
    using at [of a] that len by auto
  from call len written frame show ?thesis by blast
qed

theorem copyPatchToOutput_region_witness:
  "\<exists>buf. copyPatchToOutput (\<lambda>x :: nat. x) [[[[7, 8]]]] [Some 1, None, None, None]
            ''NCHW'' ''NCHW'' \<lparr>vec_x = 4, vec_y = 1, vec_z = 1\<rparr> 2 2 2 = Inr buf
     \<and> length buf = 4
     \<and> buf ! 0 = Some 1 \<and> buf ! 1 = None \<and> buf ! 2 = Some 7 \<and> buf ! 3 = Some 8"
proof -
  define r where "r = \<lparr>outSliceStart = 0, outSliceEnd = 1, outSliceOffset = 0,
      outLineStart = 0, outLineEnd = 1, outLineOffset = 0,
      outPixelStart = 2, outPixelEnd = 4, outPixelOffset = 2 :: size_t\<rparr>"
  define os where "os = \<lparr>vec_x = 4, vec_y = 1, vec_z = 1 :: size_t\<rparr>"
  have ranges: "patchRanges ''NCHW'' ''NCHW'' os 2 2 2 = Some r"
    unfolding r_def os_def by code_simp
  have coords: "s = 0 \<and> l = 0 \<and> (p = 2 \<or> p = 3)" if "inRanges r s l p" for s l p
  proof -
    from that have "unat s < 1" and "unat l < 1" and "2 \<le> unat p" and "unat p < 4"
      by (simp_all add: inRanges_def r_def word_le_nat_alt word_less_nat_alt)
    then have "unat s = 0" and "unat l = 0" and "unat p = 2 \<or> unat p = 3" by auto
    then show ?thesis by (auto simp: word_unat_eq_iff)
  qed
  have reads: "\<forall>s l p. inRanges r s l p \<longrightarrow>
      accessorRead [[[[7, 8 :: nat]]]] (s - outSliceOffset r) (l - outLineOffset r)
        (p - outPixelOffset r) \<noteq> None"
  proof (intro allI impI)
    fix s l p
    assume "inRanges r s l p"
    from coords [OF this] have "s = 0" and "l = 0" and "p = 2 \<or> p = 3" by simp_all
    then show "accessorRead [[[[7, 8 :: nat]]]] (s - outSliceOffset r) (l - outLineOffset r)
        (p - outPixelOffset r) \<noteq> None"
      by (auto simp: r_def accessorRead_def readAt_def)
  qed
  have size: "length [Some (1 :: nat), None, None, None]
      = unat (vec_x os) * unat (vec_y os) * unat (vec_z os)"
    and rep: "length [Some (1 :: nat), None, None, None] < 2 ^ 64"
    and within: "outSliceEnd r \<le> vec_z os" "outLineEnd r \<le> vec_y os"
      "outPixelEnd r \<le> vec_x os"
    by (simp_all add: r_def os_def)
  from copyPatchToOutput_region [OF ranges size rep within reads, where clampCast = "\<lambda>x. x"]
  obtain buf where
    run: "copyPatchToOutput (\<lambda>x :: nat. x) [[[[7, 8]]]] [Some 1, None, None, None]
            ''NCHW'' ''NCHW'' os 2 2 2 = Inr buf"
    and len': "length buf = length [Some (1 :: nat), None, None, None]"
    and written': "\<forall>s l p. inRanges r s l p \<longrightarrow>
        unat (outputIndex os s l p)
          = unat s * unat (vec_y os) * unat (vec_x os) + unat l * unat (vec_x os) + unat p
        \<and> unat (outputIndex os s l p) < length buf
        \<and> (\<exists>v. accessorRead [[[[7, 8 :: nat]]]] (s - outSliceOffset r)
                   (l - outLineOffset r) (p - outPixelOffset r) = Some v
               \<and> buf ! unat (outputIndex os s l p) = Some v)"
    and frame': "\<forall>a<length buf.
        (\<forall>s l p. inRanges r s l p \<longrightarrow> unat (outputIndex os s l p) \<noteq> a)
        \<longrightarrow> buf ! a = [Some (1 :: nat), None, None, None] ! a"
    by blast
  from len' have len: "length buf = 4" by simp
  from written' have written: "\<exists>v. accessorRead [[[[7, 8 :: nat]]]] (s - outSliceOffset r)
        (l - outLineOffset r) (p - outPixelOffset r) = Some v
      \<and> buf ! unat (outputIndex os s l p) = Some v" if "inRanges r s l p" for s l p
    using that by blast
  from frame' have frame: "buf ! a = [Some (1 :: nat), None, None, None] ! a"
    if "a < length buf"
      and "\<forall>s l p. inRanges r s l p \<longrightarrow> unat (outputIndex os s l p) \<noteq> a" for a
    using that by blast
  have "inRanges r 0 0 2" and "inRanges r 0 0 3" by (simp_all add: inRanges_def r_def)
  from written [OF this(1)] written [OF this(2)]
  have w: "buf ! 2 = Some 7" "buf ! 3 = Some 8"
    by (simp_all add: r_def os_def accessorRead_def readAt_def outputIndex_def)
  have other: "unat (outputIndex os s l p) \<noteq> 0 \<and> unat (outputIndex os s l p) \<noteq> 1"
    if "inRanges r s l p" for s l p
    using coords [OF that] by (auto simp: outputIndex_def os_def)
  from frame [of 0] frame [of 1] other len have f: "buf ! 0 = Some 1" "buf ! 1 = None"
    by simp_all
  from run len w f show ?thesis by (auto simp: os_def)
qed

end
